theory Spec2Isabelle
  imports Complex_Main
begin

section \<open>JavaScript values, objects and the console\<close>

text \<open>
  The build script \<^verbatim>\<open>bin/build.js\<close> keeps its settings in a module-level object
  \<^verbatim>\<open>configuration\<close> whose properties are read and written by name. The object is a
  finite map from property names to JavaScript values; reading a missing property gives
  \<^verbatim>\<open>undefined\<close>.
\<close>

datatype jsval =
    Undefined
  | Null
  | Bool bool
  | Num int
  | Str string
  | Arr "jsval list"
  | Obj "(string \<times> jsval) list"

type_synonym object = "string \<rightharpoonup> jsval"

definition getProp :: "object \<Rightarrow> string \<Rightarrow> jsval" where
  "getProp obj k = (case obj k of None \<Rightarrow> Undefined | Some v \<Rightarrow> v)"

text \<open>JavaScript truthiness, as used by \<^verbatim>\<open>if (configuration.isLoggingInfo)\<close>.\<close>

fun truthy :: "jsval \<Rightarrow> bool" where
  "truthy Undefined = False"
| "truthy Null = False"
| "truthy (Bool b) = b"
| "truthy (Num n) = (n \<noteq> 0)"
| "truthy (Str s) = (s \<noteq> [])"
| "truthy (Arr xs) = True"
| "truthy (Obj kvs) = True"

text \<open>\<^verbatim>\<open>x != null\<close> is false exactly for \<^verbatim>\<open>null\<close> and \<^verbatim>\<open>undefined\<close>.\<close>

fun notNullish :: "jsval \<Rightarrow> bool" where
  "notNullish Undefined = False"
| "notNullish Null = False"
| "notNullish v = True"

text \<open>
  A logged message is the concatenation of literal text with values that external
  formatters render. The message is kept unrendered, as the list of its parts: literal
  text (\<open>S\<close>), a value, an integer or a quotient in its default conversion to a string
  (\<open>V\<close>, \<open>N\<close>, \<open>Q\<close>), a byte count through \<^verbatim>\<open>prettyBytes\<close> (\<open>Bytes\<close>), a number
  through \<^verbatim>\<open>toFixed()\<close> (\<open>Fixed\<close>). The colouring by \<^verbatim>\<open>chalk\<close> is dropped.
\<close>

datatype jsnum = Fin rat | NaN | PosInf | NegInf

datatype part =
    S string
  | V jsval
  | N int
  | Q jsnum
  | Bytes int
  | Fixed jsnum

type_synonym message = "part list"

datatype logEntry = Log message | Warn message

text \<open>
  Everything the script prints goes to the console. \<^verbatim>\<open>logInfo\<close> and
  \<^verbatim>\<open>logError\<close> print only when the matching switch of the configuration is on; the
  switch is read at the moment of the call. The decorative glyph in front of a message
  is dropped.
\<close>

record logger =
  console :: "logEntry list"

definition logInfo :: "bool \<Rightarrow> message \<Rightarrow> 'a logger_scheme \<Rightarrow> 'a logger_scheme" where
  "logInfo isLoggingInfo m st =
     (if isLoggingInfo then st\<lparr>console := console st @ [Log m]\<rparr> else st)"

definition logError :: "bool \<Rightarrow> message \<Rightarrow> 'a logger_scheme \<Rightarrow> 'a logger_scheme" where
  "logError isLoggingError m st =
     (if isLoggingError then st\<lparr>console := console st @ [Warn m]\<rparr> else st)"

section \<open>Configuration resolution\<close>

record cstate = logger +
  configuration :: object

definition defaultConfiguration :: object where
  "defaultConfiguration = map_of
    [ (''dryrun'', Bool True),
      (''isLoggingInfo'', Bool True),
      (''isLoggingError'', Bool True),
      (''isCompressJavaScript'', Bool True),
      (''isMangleJavaScript'', Bool True),
      (''logfile'', Null),
      (''verbose'', Bool True),
      (''optimizeImages'', Bool True),
      (''packageName'', Str ''puttputtplanet.min.js''),
      (''configurationFile'', Null),
      (''jsSource'', Str ''./public/js''),
      (''jsDestination'', Str ''./distrib/js''),
      (''imageSource'', Str ''./public/images''),
      (''imageDestination'', Str ''./distrib/images''),
      (''exclude'', Null),
      (''imagesGlobSpec'', Str ''{jpg,jpeg,png,gif}''),
      (''unoptimizedFileSpec'', Str ''{eot,ttf,woff,woff2,svg,mp3,ogg,wav,json}''),
      (''pageManifest'', Obj []),
      (''libManifest'', Arr [Str ''bootstrap.bundle.min.js'', Str ''enginesis.js'',
                             Str ''ShareHelper.js'', Str ''commonUtilities.js'']),
      (''filesToCopy'', Arr []),
      (''jsFilesToIgnore'', Arr []),
      (''libsToCopy'', Arr [Str ''bootstrap.bundle.min.js'']),
      (''libsToCombine'', Arr [Str ''commonUtilities.js'', Str ''ShareHelper.js'',
                               Str ''enginesis.js'']),
      (''combinedLibFileName'', Str ''enginesis.min.js'') ]"

definition initialState :: cstate where
  "initialState = \<lparr> console = [], configuration = defaultConfiguration \<rparr>"

text \<open>
  During the resolution the switches are properties of the object being resolved:
  \<open>info\<close> and \<open>err\<close> are \<^verbatim>\<open>logInfo\<close> and \<^verbatim>\<open>logError\<close> as called there.
\<close>

definition info :: "message \<Rightarrow> cstate \<Rightarrow> cstate" where
  "info m st = logInfo (truthy (getProp (configuration st) ''isLoggingInfo'')) m st"

definition err :: "message \<Rightarrow> cstate \<Rightarrow> cstate" where
  "err m st = logError (truthy (getProp (configuration st) ''isLoggingError'')) m st"

text \<open>
  \<^verbatim>\<open>getArgs\<close>: the parsed command line. The argument is the object the option parser
  builds from the flags that were given (a flag that was not given is an absent key);
  the two options declared with a \<^verbatim>\<open>default\<close> are filled in.
\<close>

definition getArgs :: "object \<Rightarrow> object" where
  "getArgs argv =
     (let a1 = (if ''config'' \<in> dom argv then argv
                else argv(''config'' \<mapsto> Str ''./bin/build-config.json''))
      in if ''verbose'' \<in> dom a1 then a1 else a1(''verbose'' \<mapsto> Bool True))"

definition getCommandLineArguments :: "object \<Rightarrow> cstate \<Rightarrow> cstate" where
  "getCommandLineArguments args st =
     st\<lparr>configuration := (configuration st)
           (''optimizeImages'' \<mapsto> getProp args ''optimizeImages'',
            ''isLoggingInfo'' \<mapsto> getProp args ''verbose'',
            ''isLoggingError'' \<mapsto> Bool True)\<rparr>"

definition configurableProperties :: "string list" where
  "configurableProperties =
     [''imageDestination'', ''jsDestination'', ''dryrun'', ''exclude'', ''logfile'',
      ''optimizeImages'', ''imageSource'', ''jsSource'', ''verbose'']"

text \<open>One round of the \<^verbatim>\<open>forEach\<close> in \<^verbatim>\<open>matchProperties\<close>.\<close>

definition setProperty :: "object \<Rightarrow> cstate \<Rightarrow> string \<Rightarrow> cstate" where
  "setProperty configurationProperties st property =
     (if property \<in> dom configurationProperties
      then (let st1 = info [S ''>>> Setting .'', S property, S '' to '',
                            V (getProp configurationProperties property)] st
            in st1\<lparr>configuration := (configuration st1)
                      (property \<mapsto> getProp configurationProperties property)\<rparr>)
      else st)"

definition matchProperties :: "object \<Rightarrow> cstate \<Rightarrow> cstate" where
  "matchProperties configurationProperties st =
     foldl (setProperty configurationProperties) st configurableProperties"

text \<open>
  What the file system answers for the configuration file: it does not exist; it exists
  but \<^verbatim>\<open>readJSON\<close> fails (unreadable or not JSON) with some exception text; it holds
  the JSON value \<^verbatim>\<open>null\<close>; or it holds a JSON value with properties (any other JSON
  value has none of the properties looked for and behaves as the empty object).
\<close>

datatype configFile =
    Missing
  | Unparseable string
  | ParsedNull
  | Parsed object

fun pathExists :: "configFile \<Rightarrow> bool" where
  "pathExists Missing = False"
| "pathExists (Unparseable e) = True"
| "pathExists ParsedNull = True"
| "pathExists (Parsed data) = True"

text \<open>
  \<^verbatim>\<open>loadConfigurationData\<close> always resolves: with the data, or with the empty object
  after logging the error. \<^verbatim>\<open>None\<close> stands for the data \<^verbatim>\<open>null\<close>.
\<close>

fun loadConfigurationData :: "jsval \<Rightarrow> configFile \<Rightarrow> cstate \<Rightarrow> object option \<times> cstate" where
  "loadConfigurationData p (Parsed data) st = (Some data, st)"
| "loadConfigurationData p ParsedNull st = (None, st)"
| "loadConfigurationData p (Unparseable exception) st =
     (Some Map.empty,
      err [S ''Configuration file '', V p, S '' error when reading: '', S exception] st)"
| "loadConfigurationData p Missing st =
     (Some Map.empty,
      err [S ''Configuration file '', V p, S '' error when reading: '', S ''ENOENT''] st)"

text \<open>
  \<^verbatim>\<open>updateConfiguration\<close> returns a promise that is only ever resolved. The result is
  whether it resolves, and the state left behind. It stays pending when no
  configuration path is given, and when the data read is \<^verbatim>\<open>null\<close>
  (\<^verbatim>\<open>matchProperties\<close> then throws inside the promise callback).
\<close>

definition updateConfiguration :: "object \<Rightarrow> configFile \<Rightarrow> bool \<times> cstate" where
  "updateConfiguration argv file =
     (let cliArgs = getArgs argv;
          st0 = getCommandLineArguments cliArgs initialState
      in if notNullish (getProp cliArgs ''config'')
         then (let st1 = info [S ''got config''] st0
               in if pathExists file
                  then (let st2 = info [S ''Configuration file '', V (getProp cliArgs ''config''),
                                        S '' overriding any matching default options.''] st1
                        in case loadConfigurationData (getProp cliArgs ''config'') file st2 of
                             (None, st3) \<Rightarrow> (False, st3)
                           | (Some configurationData, st3) \<Rightarrow>
                               (let st4 = matchProperties configurationData st3;
                                    st5 = info [S ''CLI overriding any matching options.''] st4
                                in (True, matchProperties cliArgs st5)))
                  else (let st2 = err [S ''Configuration file '', V (getProp cliArgs ''config''),
                                       S '' does not exist, continuing with the default configuration.''] st1
                        in (True, matchProperties cliArgs st2)))
         else (False, info [S ''no config?''] st0))"

definition resolved :: "object \<Rightarrow> configFile \<Rightarrow> string \<Rightarrow> jsval" where
  "resolved argv file k = getProp (configuration (snd (updateConfiguration argv file))) k"

text \<open>
  The merge as the docstring of \<^verbatim>\<open>updateConfiguration\<close> words it ("command line
  overrides configuration file which overrides defaults"), for comparison with
  \<^const>\<open>resolved\<close>.
\<close>

definition mergedByPriority :: "object \<Rightarrow> object \<Rightarrow> object \<Rightarrow> string \<Rightarrow> jsval" where
  "mergedByPriority defaults fileData cli k =
     (case cli k of Some v \<Rightarrow> v
      | None \<Rightarrow> (case fileData k of Some v \<Rightarrow> v | None \<Rightarrow> getProp defaults k))"

section \<open>Module state of the build phase\<close>

text \<open>
  \<^verbatim>\<open>compressionStats\<close> is the run-wide accumulator. Times are clock readings in
  milliseconds; \<^verbatim>\<open>endTime\<close> is \<^verbatim>\<open>null\<close> until an image batch completes.
\<close>

record compressionStats =
  totalFiles :: nat
  totalBytesConsidered :: nat
  totalBytesCompressed :: nat
  startTime :: nat
  endTime :: "nat option"

text \<open>
  The processors see the console, the two logging switches of the resolved
  configuration, and the accumulator.
\<close>

record world = logger +
  isLoggingInfo :: bool
  isLoggingError :: bool
  stats :: compressionStats

text \<open>\<open>say\<close> and \<open>complain\<close> are \<^verbatim>\<open>logInfo\<close> and \<^verbatim>\<open>logError\<close> as called by the processors.\<close>

definition say :: "message \<Rightarrow> 'a world_scheme \<Rightarrow> 'a world_scheme" where
  "say m w = logInfo (isLoggingInfo w) m w"

definition complain :: "message \<Rightarrow> 'a world_scheme \<Rightarrow> 'a world_scheme" where
  "complain m w = logError (isLoggingError w) m w"

text \<open>
  A promise is pending, resolved, or rejected with an error (kept as the text that
  \<^verbatim>\<open>error.toString()\<close> gives).
\<close>

datatype outcome = Pending | Resolved | Rejected string

section \<open>Numbers\<close>

text \<open>
  Byte counts are non-negative integers. A quotient of two of them is a JavaScript
  number: division by zero does not raise, it gives \<^verbatim>\<open>NaN\<close> or an infinity. Finite
  quotients are kept exact; the rounding of doubles is not modelled.
\<close>

definition jsDivide :: "int \<Rightarrow> int \<Rightarrow> jsnum" where
  "jsDivide a b =
     (if b = 0 then (if a = 0 then NaN else if 0 < a then PosInf else NegInf)
      else Fin (of_int a / of_int b))"

fun times100 :: "jsnum \<Rightarrow> jsnum" where
  "times100 (Fin q) = Fin (q * 100)"
| "times100 NaN = NaN"
| "times100 PosInf = PosInf"
| "times100 NegInf = NegInf"


section \<open>The orchestrator\<close>

text \<open>The ratio that \<^verbatim>\<open>showStats\<close> prints: no test for a zero divisor.\<close>

definition bytesRatio :: "compressionStats \<Rightarrow> jsnum" where
  "bytesRatio st =
     times100 (jsDivide (int (totalBytesConsidered st) - int (totalBytesCompressed st))
                        (int (totalBytesConsidered st)))"

text \<open>
  The ratio in the closing message of \<^verbatim>\<open>optimizeImages\<close> and \<^verbatim>\<open>optimizeCSS\<close>:
  the number \<^verbatim>\<open>0\<close> when nothing was considered, else the rounded percentage
  followed by a percent sign.
\<close>

definition percentSaved :: "nat \<Rightarrow> nat \<Rightarrow> message" where
  "percentSaved considered copied =
     (if considered = 0 then [N 0]
      else [Fixed (times100 (jsDivide (int considered - int copied) (int considered))), S ''%''])"

text \<open>
  \<^verbatim>\<open>showStats\<close> reads \<^verbatim>\<open>endTime.getTime()\<close>; on \<^verbatim>\<open>null\<close> that throws after the
  heading has been printed. The result is the exception, if any, and the state.
\<close>

definition showStats :: "string \<Rightarrow> 'a world_scheme \<Rightarrow> string option \<times> 'a world_scheme" where
  "showStats version w =
     (let w1 = say [S ''Build stats:''] w; st = stats w1
      in case endTime st of
           None \<Rightarrow> (Some ''TypeError: Cannot read properties of null'', w1)
         | Some t \<Rightarrow>
             (let dateDiff = Fin ((of_int (int t - int (startTime st))) / 1000);
                  bytesSaved = int (totalBytesConsidered st) - int (totalBytesCompressed st)
              in (None,
                  say [S ''Completed build version '', S version, S '' in '', Q dateDiff,
                       S ''s: '', N (int (totalFiles st)), S '' files, originally '',
                       Bytes (int (totalBytesConsidered st)), S '', now '',
                       Bytes (int (totalBytesCompressed st)), S '' saving '',
                       Bytes bytesSaved, S '' ('', Fixed (bytesRatio st), S ''%).''] w1)))"

text \<open>
  \<^verbatim>\<open>Promise.all\<close> over the processors' promises, listed in the order in which they
  settle: rejected with the first rejection, resolved when all are resolved, pending
  otherwise.
\<close>

fun promiseAll :: "outcome list \<Rightarrow> outcome" where
  "promiseAll [] = Resolved"
| "promiseAll (Rejected e # ps) = Rejected e"
| "promiseAll (Resolved # ps) = promiseAll ps"
| "promiseAll (Pending # ps) = (case promiseAll ps of Rejected e \<Rightarrow> Rejected e | _ \<Rightarrow> Pending)"

text \<open>
  \<^verbatim>\<open>runBuild\<close>, from the moment the combined promise settles: the \<^verbatim>\<open>then\<close> branch
  prints the summary, the \<^verbatim>\<open>catch\<close> branch logs the error (also one thrown by the
  \<^verbatim>\<open>then\<close> branch itself).
\<close>

definition runBuild :: "string \<Rightarrow> outcome list \<Rightarrow> 'a world_scheme \<Rightarrow> 'a world_scheme" where
  "runBuild version processors w =
     (case promiseAll processors of
        Pending \<Rightarrow> w
      | Rejected e \<Rightarrow> complain [S e, S '' -- probably unhandled error.''] w
      | Resolved \<Rightarrow>
          (case showStats version (say [S ''All builds complete''] w) of
             (None, w1) \<Rightarrow> w1
           | (Some e, w1) \<Rightarrow> complain [S e, S '' -- probably unhandled error.''] w1))"

section \<open>Paths\<close>

text \<open>
  The functions of Node's \<^verbatim>\<open>path\<close> module that the script uses, for plain relative
  names with \<^verbatim>\<open>/\<close> as separator: \<^verbatim>\<open>join\<close> without normalisation,
  \<^verbatim>\<open>basename\<close>, \<^verbatim>\<open>dirname\<close>, and the \<^verbatim>\<open>name\<close> field of \<^verbatim>\<open>parse\<close> (the
  base name without its last extension).
\<close>

definition pathJoin :: "string \<Rightarrow> string \<Rightarrow> string" where
  "pathJoin a b = a @ ''/'' @ b"

definition pathBasename :: "string \<Rightarrow> string" where
  "pathBasename p = rev (takeWhile (\<lambda>c. c \<noteq> CHR ''/'') (rev p))"

definition pathDirname :: "string \<Rightarrow> string" where
  "pathDirname p =
     (let d = rev (drop 1 (dropWhile (\<lambda>c. c \<noteq> CHR ''/'') (rev p)))
      in if d = [] then ''.'' else d)"

definition pathParseName :: "string \<Rightarrow> string" where
  "pathParseName p =
     (let b = pathBasename p;
          stem = rev (drop 1 (dropWhile (\<lambda>c. c \<noteq> CHR ''.'') (rev b)))
      in if stem = [] then b else stem)"

section \<open>Image batches\<close>

text \<open>
  An image batch runs on the event loop: the script starts asynchronous operations
  (\<^verbatim>\<open>ImageMin\<close>, \<^verbatim>\<open>stat\<close>) and continues in their callbacks, one callback at a time.
  The state of a batch is the module state, the runner's bookkeeping, the operations
  that are outstanding, the counters local to the processor, and the promise the
  processor returned. An outstanding \<^verbatim>\<open>stat\<close> of the optimizing processor remembers
  the optimized size its callback will read. The processor's local counter
  \<^verbatim>\<open>totalBytesConsidered\<close> is the field \<open>bytesConsidered\<close>, the accumulator having a
  field of that name already; the runner's flag \<^verbatim>\<open>done\<close> is the field \<open>stopped\<close>.
\<close>

datatype pending =
    ImageMinPending string
  | OptimizeStatPending string nat
  | CopyStatPending string

record batch = world +
  queue :: "string list"
  running :: nat
  stopped :: bool
  finished :: bool
  pendingOps :: "pending list"
  totalFilesCopied :: nat
  bytesConsidered :: nat
  totalBytesCopied :: nat
  promise :: outcome
  crashed :: "string option"

definition freshBatch :: "world \<Rightarrow> batch" where
  "freshBatch w =
     \<lparr> console = console w, isLoggingInfo = isLoggingInfo w, isLoggingError = isLoggingError w,
       stats = stats w, queue = [], running = 0, stopped = False, finished = False,
       pendingOps = [], totalFilesCopied = 0, bytesConsidered = 0, totalBytesCopied = 0,
       promise = Pending, crashed = None \<rparr>"

text \<open>
  The module state when the script is loaded, at clock reading \<open>t\<close>, with both
  logging switches on.
\<close>

definition initialWorld :: "nat \<Rightarrow> world" where
  "initialWorld t =
     \<lparr> console = [], isLoggingInfo = True, isLoggingError = True,
       stats = \<lparr> totalFiles = 0, totalBytesConsidered = 0, totalBytesCompressed = 0,
                 startTime = t, endTime = None \<rparr> \<rparr>"

subsection \<open>The runner\<close>

text \<open>
  Modelled from the spec: the bounded-concurrency runner, \<^verbatim>\<open>eachLimit\<close> of the
  \<^verbatim>\<open>async\<close> package, an external collaborator whose code is not in the repository.
  It hands items to the per-item function while fewer than \<^verbatim>\<open>limit\<close> of the
  callbacks it gave out are outstanding; each callback frees one place; the final
  callback runs once, when every item was handed out and every callback has come back.
  The specification leaves open what a failing item does to the rest of the batch;
  the model follows the package's documented behaviour: the final callback runs at
  once with the first error passed to a callback, and no further item is handed out.
  A limit below one is refused with a \<^verbatim>\<open>RangeError\<close>.
\<close>

definition finalCallback :: "(string option \<Rightarrow> batch \<Rightarrow> batch) \<Rightarrow> string option \<Rightarrow> batch \<Rightarrow> batch" where
  "finalCallback callback error s =
     (if finished s then s else callback error (s\<lparr>finished := True\<rparr>))"

text \<open>
  Modelled from the spec: the runner's loop. While a place is free and the runner has
  not stopped, the next item is handed to the per-item function; when no item is left
  the runner stops, and runs the final callback if no callback is outstanding.
\<close>

fun replenish ::
  "(string \<Rightarrow> batch \<Rightarrow> batch) \<Rightarrow> (string option \<Rightarrow> batch \<Rightarrow> batch) \<Rightarrow> nat \<Rightarrow> string list \<Rightarrow> batch \<Rightarrow> batch" where
  "replenish iteratee callback limit [] s =
     (if running s < limit \<and> \<not> stopped s
      then (let s1 = s\<lparr>queue := [], stopped := True\<rparr>
            in if running s1 = 0 then finalCallback callback None s1 else s1)
      else s\<lparr>queue := []\<rparr>)"
| "replenish iteratee callback limit (elem # rest) s =
     (if running s < limit \<and> \<not> stopped s
      then replenish iteratee callback limit rest
             (iteratee elem (s\<lparr>queue := rest, running := running s + 1\<rparr>))
      else s\<lparr>queue := elem # rest\<rparr>)"

text \<open>
  Modelled from the spec: the callback the runner gives to the per-item function. It
  frees the place; an error stops the runner and goes to the final callback at once;
  otherwise the final callback runs if this was the last callback of a stopped runner,
  and else the loop goes on.
\<close>

definition iterateeCallback ::
  "(string \<Rightarrow> batch \<Rightarrow> batch) \<Rightarrow> (string option \<Rightarrow> batch \<Rightarrow> batch) \<Rightarrow> nat \<Rightarrow> string option \<Rightarrow> batch \<Rightarrow> batch" where
  "iterateeCallback iteratee callback limit error s =
     (let s1 = s\<lparr>running := running s - 1\<rparr>
      in case error of
           Some e \<Rightarrow> finalCallback callback (Some e) (s1\<lparr>stopped := True\<rparr>)
         | None \<Rightarrow>
             if stopped s1 \<and> running s1 = 0 then finalCallback callback None s1
             else replenish iteratee callback limit (queue s1) s1)"

text \<open>
  Modelled from the spec: the entry point of the runner, with the limit it is given
  (the script passes \<^verbatim>\<open>os.cpus().length\<close>, as it is).
\<close>

definition eachLimit ::
  "string list \<Rightarrow> nat \<Rightarrow> (string \<Rightarrow> batch \<Rightarrow> batch) \<Rightarrow> (string option \<Rightarrow> batch \<Rightarrow> batch) \<Rightarrow> batch \<Rightarrow> batch" where
  "eachLimit files limit iteratee callback s =
     (if limit = 0
      then s\<lparr>crashed := Some ''RangeError: concurrency limit cannot be less than 1''\<rparr>
      else replenish iteratee callback limit files (s\<lparr>queue := files\<rparr>))"

subsection \<open>The processors\<close>

definition addToStats :: "nat \<Rightarrow> nat \<Rightarrow> nat \<Rightarrow> nat \<Rightarrow> compressionStats \<Rightarrow> compressionStats" where
  "addToStats files considered copied now st =
     st\<lparr>totalFiles := totalFiles st + files,
        totalBytesConsidered := totalBytesConsidered st + considered,
        totalBytesCompressed := totalBytesCompressed st + copied,
        endTime := Some now\<rparr>"

definition dropAt :: "nat \<Rightarrow> 'a list \<Rightarrow> 'a list" where
  "dropAt i xs = take i xs @ drop (Suc i) xs"

definition destinationFile :: "string \<Rightarrow> string \<Rightarrow> string \<Rightarrow> string" where
  "destinationFile sourcePath destinationPath file =
     pathJoin destinationPath (drop (length sourcePath - 1) file)"

text \<open>
  \<^verbatim>\<open>optimizeImages\<close>. The per-item function starts \<^verbatim>\<open>ImageMin\<close>. When that
  resolves it starts \<^verbatim>\<open>stat\<close> and, without waiting for it, calls the runner's
  callback with no error; the counters are updated later, in the callback of
  \<^verbatim>\<open>stat\<close>. When \<^verbatim>\<open>ImageMin\<close> rejects nothing catches the rejection. The final
  callback adds the counters, as they are at that moment, to the accumulator.
\<close>

text \<open>
  An event \<open>(i, result)\<close> says that the outstanding operation at position \<open>i\<close>
  comes back with \<open>result\<close>: \<^const>\<open>Inl\<close> an error, \<^const>\<open>Inr\<close> a size in
  bytes (the length of the optimized data for \<^verbatim>\<open>ImageMin\<close>, the size of the file for
  \<^verbatim>\<open>stat\<close>). An exception that nothing catches ends the process: after it no event
  has an effect.
\<close>

definition optimizeImagesItem :: "string \<Rightarrow> batch \<Rightarrow> batch" where
  "optimizeImagesItem file s = s\<lparr>pendingOps := pendingOps s @ [ImageMinPending file]\<rparr>"

definition optimizeImagesDone :: "nat \<Rightarrow> string option \<Rightarrow> batch \<Rightarrow> batch" where
  "optimizeImagesDone now error s =
     (let s1 = s\<lparr>stats := addToStats (totalFilesCopied s) (bytesConsidered s)
                             (totalBytesCopied s) now (stats s)\<rparr>
      in case error of
           Some e \<Rightarrow> s1\<lparr>promise := Rejected (''Error: optimizeImages process error '' @ e)\<rparr>
         | None \<Rightarrow>
             (say ([S ''Completed image optimization for '', N (int (totalFilesCopied s1)),
                    S '' files, saved '',
                    Bytes (int (bytesConsidered s1) - int (totalBytesCopied s1)), S '' '']
                   @ percentSaved (bytesConsidered s1) (totalBytesCopied s1)) s1)
             \<lparr>promise := Resolved\<rparr>)"

definition optimizeImagesSettle ::
  "nat \<Rightarrow> nat \<Rightarrow> string \<Rightarrow> string \<Rightarrow> nat \<times> (string + nat) \<Rightarrow> batch \<Rightarrow> batch" where
  "optimizeImagesSettle numberOfCPUs now sourcePath destinationPath ev s =
     (case ev of (i, result) \<Rightarrow>
        if (case crashed s of Some e \<Rightarrow> True | None \<Rightarrow> length (pendingOps s) \<le> i) then s
        else (let s1 = s\<lparr>pendingOps := dropAt i (pendingOps s)\<rparr>
              in case pendingOps s ! i of
                   ImageMinPending file \<Rightarrow>
                     (case result of
                        Inl e \<Rightarrow> s1\<lparr>crashed := Some e\<rparr>
                      | Inr optimizedFileSize \<Rightarrow>
                          iterateeCallback optimizeImagesItem (optimizeImagesDone now)
                            numberOfCPUs None
                            (s1\<lparr>pendingOps := pendingOps s1
                                   @ [OptimizeStatPending file optimizedFileSize]\<rparr>))
                 | OptimizeStatPending file optimizedFileSize \<Rightarrow>
                     (case result of
                        Inl fstatError \<Rightarrow>
                          complain [S file, S '' -- fstat error '', S fstatError] s1
                      | Inr originalFileSize \<Rightarrow>
                          (let bytesSaved = int originalFileSize - int optimizedFileSize;
                               s2 = s1\<lparr>totalFilesCopied := totalFilesCopied s1 + 1,
                                       bytesConsidered := bytesConsidered s1 + originalFileSize,
                                       totalBytesCopied := totalBytesCopied s1 + optimizedFileSize\<rparr>;
                               statusMessage =
                                 (if 9 < bytesSaved
                                  then [S ''saved '', Bytes bytesSaved, S '' ('',
                                        Fixed (times100 (jsDivide bytesSaved (int originalFileSize))),
                                        S ''%)'']
                                  else [S ''was optimized''])
                           in say ([S file, S '' -- copy to '',
                                    S (destinationFile sourcePath destinationPath file),
                                    S '' -- ''] @ statusMessage) s2))
                 | CopyStatPending file \<Rightarrow> s))"

definition optimizeImages ::
  "nat \<Rightarrow> nat \<Rightarrow> string \<Rightarrow> string list \<Rightarrow> world \<Rightarrow> batch" where
  "optimizeImages numberOfCPUs now globSpec files w =
     eachLimit files numberOfCPUs optimizeImagesItem (optimizeImagesDone now)
       (say [S ''Starting image optimization for '', S globSpec] (freshBatch w))"

text \<open>
  \<^verbatim>\<open>copyImages\<close>. The per-item function starts \<^verbatim>\<open>stat\<close> and does everything else
  in its callback: on an error it logs and hands the error to the runner's callback;
  otherwise it copies the file (a failing copy throws out of the callback), updates
  the counters and calls the runner's callback with no error.
\<close>

definition copyImagesItem :: "string \<Rightarrow> batch \<Rightarrow> batch" where
  "copyImagesItem file s = s\<lparr>pendingOps := pendingOps s @ [CopyStatPending file]\<rparr>"

definition copyImagesDone :: "nat \<Rightarrow> string option \<Rightarrow> batch \<Rightarrow> batch" where
  "copyImagesDone now error s =
     (let s1 = s\<lparr>stats := addToStats (totalFilesCopied s) (bytesConsidered s)
                             (totalBytesCopied s) now (stats s)\<rparr>
      in case error of
           Some e \<Rightarrow> s1\<lparr>promise := Rejected (''Error: copyImages process error '' @ e)\<rparr>
         | None \<Rightarrow>
             (say [S ''Completed image copy for '', N (int (totalFilesCopied s1)),
                   S '' files, total '', Bytes (int (totalBytesCopied s1))] s1)
             \<lparr>promise := Resolved\<rparr>)"

definition copyImagesSettle ::
  "nat \<Rightarrow> nat \<Rightarrow> string \<Rightarrow> string \<Rightarrow> (string \<Rightarrow> string option) \<Rightarrow> nat \<times> (string + nat) \<Rightarrow> batch \<Rightarrow> batch" where
  "copyImagesSettle numberOfCPUs now sourcePath destinationPath copyFails ev s =
     (case ev of (i, result) \<Rightarrow>
        if (case crashed s of Some e \<Rightarrow> True | None \<Rightarrow> length (pendingOps s) \<le> i) then s
        else (let s1 = s\<lparr>pendingOps := dropAt i (pendingOps s)\<rparr>
              in case pendingOps s ! i of
                   CopyStatPending file \<Rightarrow>
                     (case result of
                        Inl error \<Rightarrow>
                          iterateeCallback copyImagesItem (copyImagesDone now) numberOfCPUs
                            (Some error)
                            (complain [S file, S '' -- fstat error '', S error] s1)
                      | Inr originalFileSize \<Rightarrow>
                          (case copyFails file of
                             Some e \<Rightarrow> s1\<lparr>crashed := Some e\<rparr>
                           | None \<Rightarrow>
                               iterateeCallback copyImagesItem (copyImagesDone now)
                                 numberOfCPUs None
                                 (say [S file, S '' -- copy to '',
                                       S (destinationFile sourcePath destinationPath file)]
                                    (s1\<lparr>totalFilesCopied := totalFilesCopied s1 + 1,
                                         bytesConsidered := bytesConsidered s1 + originalFileSize,
                                         totalBytesCopied := totalBytesCopied s1 + originalFileSize\<rparr>))))
                 | ImageMinPending file \<Rightarrow> s
                 | OptimizeStatPending file n \<Rightarrow> s))"

definition copyImages ::
  "nat \<Rightarrow> nat \<Rightarrow> string \<Rightarrow> string \<Rightarrow> string list \<Rightarrow> world \<Rightarrow> batch" where
  "copyImages numberOfCPUs now globSpec destinationPath files w =
     eachLimit files numberOfCPUs copyImagesItem (copyImagesDone now)
       (say [S ''Starting image copy with '', S globSpec, S '' to '', S destinationPath]
            (freshBatch w))"

text \<open>
  \<^verbatim>\<open>handleImages\<close> chooses by the truthiness of the resolved
  \<^verbatim>\<open>optimizeImages\<close> property.
\<close>

definition handleImages ::
  "jsval \<Rightarrow> nat \<Rightarrow> nat \<Rightarrow> string \<Rightarrow> string \<Rightarrow> string list \<Rightarrow> world \<Rightarrow> batch" where
  "handleImages optimizeImagesProperty numberOfCPUs now globSpec destinationPath files w =
     (if truthy optimizeImagesProperty
      then optimizeImages numberOfCPUs now globSpec files w
      else copyImages numberOfCPUs now globSpec destinationPath files w)"

section \<open>The script processor\<close>

text \<open>
  The part of the file system the script processor touches: the text of each file, by
  path, and the folders that exist. Strings are byte strings, so \<^const>\<open>length\<close> is
  \<^verbatim>\<open>Buffer.byteLength\<close>. Reading a file that is not there throws; creating a folder
  or writing a file throws when the folder above it is not there.
\<close>

record filesystem =
  contents :: "string \<rightharpoonup> string"
  folders :: "string list"

definition readFileSync :: "string \<Rightarrow> filesystem \<Rightarrow> string + string" where
  "readFileSync p files =
     (case contents files p of
        None \<Rightarrow> Inl (''Error: ENOENT: no such file or directory, open '' @ p)
      | Some text \<Rightarrow> Inr text)"

definition existsSync :: "string \<Rightarrow> filesystem \<Rightarrow> bool" where
  "existsSync p files = (p \<in> set (folders files) \<or> p \<in> dom (contents files))"

definition mkdirSync :: "string \<Rightarrow> filesystem \<Rightarrow> string + filesystem" where
  "mkdirSync p files =
     (if pathDirname p \<in> set (folders files)
      then Inr (files\<lparr>folders := folders files @ [p]\<rparr>)
      else Inl (''Error: ENOENT: no such file or directory, mkdir '' @ p))"

definition writeFileSync :: "string \<Rightarrow> string \<Rightarrow> filesystem \<Rightarrow> string + filesystem" where
  "writeFileSync p text files =
     (if pathDirname p \<in> set (folders files)
      then Inr (files\<lparr>contents := (contents files)(p \<mapsto> text)\<rparr>)
      else Inl (''Error: ENOENT: no such file or directory, open '' @ p))"

text \<open>
  The fields of the configuration object that \<^verbatim>\<open>optimizeJS\<close> reads. The page
  manifest lists its bundles in the order in which \<^verbatim>\<open>for ... in\<close> visits them.
\<close>

record settings =
  jsSource :: string
  jsDestination :: string
  pageManifest :: "(string \<times> string list) list"
  jsFilesToIgnore :: "string list"
  isCompressJavaScript :: bool
  isMangleJavaScript :: bool

text \<open>
  The options handed to the minifier: \<^verbatim>\<open>compress\<close> and \<^verbatim>\<open>mangle\<close> are set to
  \<^verbatim>\<open>false\<close> when switched off and left out otherwise.
\<close>

record terserOptions =
  warnings :: bool
  toplevel :: bool
  compress :: "bool option"
  mangle :: "bool option"

definition makeTerserOptions :: "settings \<Rightarrow> terserOptions" where
  "makeTerserOptions varynConfiguration =
     \<lparr> warnings = True, toplevel = False,
       compress = (if isCompressJavaScript varynConfiguration then None else Some False),
       mangle = (if isMangleJavaScript varynConfiguration then None else Some False) \<rparr>"

text \<open>
  A call of the minifier that has not come back yet, with its arguments, and what it
  may come back with: an exception, no result object, a result without code, or code.
\<close>

record job =
  packageName :: string
  terserCode :: "(string \<times> string) list"
  options :: terserOptions

datatype minified =
    Threw string
  | NoResult
  | NullCode string
  | Code string

record jsrun = world +
  disk :: filesystem
  jsBytesConsidered :: nat
  jsBytesCopied :: nat
  minifying :: "job list"

definition freshJS :: "filesystem \<Rightarrow> world \<Rightarrow> jsrun" where
  "freshJS files w =
     \<lparr> console = console w, isLoggingInfo = isLoggingInfo w, isLoggingError = isLoggingError w,
       stats = stats w, disk = files, jsBytesConsidered = 0, jsBytesCopied = 0,
       minifying = [] \<rparr>"

text \<open>\<^verbatim>\<open>terserCode[fileName] = fileContents\<close>: a known name keeps its place.\<close>

fun assign :: "string \<Rightarrow> string \<Rightarrow> (string \<times> string) list \<Rightarrow> (string \<times> string) list" where
  "assign k v [] = [(k, v)]"
| "assign k v ((k', v') # kvs) = (if k = k' then (k, v) # kvs else (k', v') # assign k v kvs)"

text \<open>
  \<^verbatim>\<open>prepareJSFile\<close>. An exception leaves with the state reached so far
  (\<^const>\<open>Inl\<close>); otherwise the entries collected and the state are returned.
\<close>

definition prepareJSFile ::
  "settings \<Rightarrow> settings \<Rightarrow> string \<Rightarrow> (string \<times> string) list \<Rightarrow> jsrun
     \<Rightarrow> (string \<times> jsrun) + ((string \<times> string) list \<times> jsrun)" where
  "prepareJSFile globalConfiguration varynConfiguration file code s =
     (let fileName = pathBasename file;
          filePath = pathJoin (jsSource varynConfiguration) file;
          s1 = say [S ''JS compress source '', S filePath] s
      in if fileName \<notin> set (jsFilesToIgnore globalConfiguration)
         then (case readFileSync filePath (disk s1) of
                 Inl e \<Rightarrow> Inl (e, s1)
               | Inr fileContents \<Rightarrow>
                   if fileContents \<noteq> []
                   then Inr (assign fileName fileContents code,
                             s1\<lparr>stats := (stats s1)
                                   \<lparr>totalFiles := totalFiles (stats s1) + 1,
                                    totalBytesConsidered :=
                                      totalBytesConsidered (stats s1) + length fileContents\<rparr>,
                                jsBytesConsidered := jsBytesConsidered s1 + length fileContents\<rparr>)
                   else Inr (code, complain [S ''prepareJSFile Error reading file '', S filePath] s1))
         else Inr (code, s1))"

fun prepareJSFiles ::
  "settings \<Rightarrow> settings \<Rightarrow> string list \<Rightarrow> (string \<times> string) list \<Rightarrow> jsrun
     \<Rightarrow> (string \<times> jsrun) + ((string \<times> string) list \<times> jsrun)" where
  "prepareJSFiles globalConfiguration varynConfiguration [] code s = Inr (code, s)"
| "prepareJSFiles globalConfiguration varynConfiguration (file # rest) code s =
     (case prepareJSFile globalConfiguration varynConfiguration file code s of
        Inl thrown \<Rightarrow> Inl thrown
      | Inr (code1, s1) \<Rightarrow> prepareJSFiles globalConfiguration varynConfiguration rest code1 s1)"

text \<open>
  \<^verbatim>\<open>completeJSCompression\<close> up to its \<^verbatim>\<open>await\<close>: the minifier is called and the
  function is left; the caller does not wait for it.
\<close>

definition completeJSCompression ::
  "settings \<Rightarrow> settings \<Rightarrow> string \<Rightarrow> (string \<times> string) list \<Rightarrow> jsrun \<Rightarrow> jsrun" where
  "completeJSCompression globalConfiguration varynConfiguration name code s =
     (let destination = pathJoin (jsDestination globalConfiguration) name;
          s1 = say [S ''JS compress save as '', S destination] s
      in s1\<lparr>minifying := minifying s1
               @ [\<lparr> packageName = name, terserCode = code,
                    options = makeTerserOptions varynConfiguration \<rparr>]\<rparr>)"

text \<open>
  The loop over the bundles. The output name comes from the last file of the list; an
  empty list has no last file and \<^verbatim>\<open>path.parse\<close> throws.
\<close>

fun bundles ::
  "settings \<Rightarrow> settings \<Rightarrow> (string \<times> string list) list \<Rightarrow> jsrun \<Rightarrow> (string \<times> jsrun) + jsrun" where
  "bundles globalConfiguration varynConfiguration [] s = Inr s"
| "bundles globalConfiguration varynConfiguration ((fileGroup, fileList) # rest) s =
     (if fileList = []
      then Inl (''TypeError: The path argument must be of type string'', s)
      else (case prepareJSFiles globalConfiguration varynConfiguration fileList [] s of
              Inl thrown \<Rightarrow> Inl thrown
            | Inr (code, s1) \<Rightarrow>
                bundles globalConfiguration varynConfiguration rest
                  (completeJSCompression globalConfiguration varynConfiguration
                     (pathParseName (last fileList) @ ''.min.js'') code s1)))"

text \<open>
  \<^verbatim>\<open>optimizeJS\<close>: the body of the promise runs at once; it resolves at the end of
  the loop, and an exception thrown in the body rejects it. The result is the promise
  as settled and the state at that moment.
\<close>

definition optimizeJS :: "settings \<Rightarrow> settings \<Rightarrow> jsrun \<Rightarrow> outcome \<times> jsrun" where
  "optimizeJS globalConfiguration varynConfiguration s =
     (case bundles globalConfiguration varynConfiguration (pageManifest varynConfiguration)
             (say [S ''Starting JavaScript optimization for Varyn app files''] s) of
        Inl (e, s1) \<Rightarrow> (Rejected e, s1)
      | Inr s1 \<Rightarrow> (Resolved, s1))"

text \<open>
  The rest of \<^verbatim>\<open>completeJSCompression\<close>, run when the minifier comes back for the
  call at position \<open>i\<close>: everything is inside \<^verbatim>\<open>try\<close>, so an exception is logged.
\<close>

definition minifySettle :: "settings \<Rightarrow> settings \<Rightarrow> nat \<times> minified \<Rightarrow> jsrun \<Rightarrow> jsrun" where
  "minifySettle globalConfiguration varynConfiguration ev s =
     (case ev of (i, result) \<Rightarrow>
        if length (minifying s) \<le> i then s
        else (let s1 = s\<lparr>minifying := dropAt i (minifying s)\<rparr>;
                  destination = pathJoin (jsDestination globalConfiguration)
                                         (packageName (minifying s ! i));
                  destinationFolder = jsDestination varynConfiguration
              in case result of
                   Threw e \<Rightarrow> complain [S ''completeJSCompression Compress error '', S e] s1
                 | NoResult \<Rightarrow>
                     complain [S ''completeJSCompression Compress error '',
                               S ''TypeError: Cannot read properties of null''] s1
                 | NullCode e \<Rightarrow>
                     complain [S ''completeJSCompression something wrong with Terser '', S e] s1
                 | Code text \<Rightarrow>
                     (case (if existsSync destinationFolder (disk s1) then Inr (disk s1)
                            else mkdirSync destinationFolder (disk s1)) of
                        Inl e \<Rightarrow> complain [S ''completeJSCompression Compress error '', S e] s1
                      | Inr files1 \<Rightarrow>
                          (case writeFileSync destination text files1 of
                             Inl e \<Rightarrow>
                               complain [S ''completeJSCompression Compress error '', S e]
                                 (s1\<lparr>disk := files1\<rparr>)
                           | Inr files2 \<Rightarrow>
                               (let s2 = s1\<lparr>disk := files2,
                                           jsBytesCopied := length text,
                                           stats := (stats s1)
                                             \<lparr>totalBytesCompressed :=
                                                totalBytesCompressed (stats s1) + length text\<rparr>\<rparr>;
                                    bytesSaved = int (jsBytesConsidered s2) - int (jsBytesCopied s2);
                                    statusMessage =
                                      (if 9 < bytesSaved
                                       then [S ''JS compression saved '', Bytes bytesSaved, S '' ('',
                                             Fixed (times100 (jsDivide bytesSaved
                                                      (int (jsBytesConsidered s2)))), S ''%)'']
                                       else [S ''JS is optimized''])
                                in say ([S ''JS compressed to '', S destination, S '' -- '']
                                        @ statusMessage) s2)))))"

section \<open>Invariants of an image batch\<close>

text \<open>
  The counters of a batch are balanced against the accumulator as it was at the start
  when the two local byte counters agree and the accumulator's savings have not
  changed.
\<close>

definition balanced :: "compressionStats \<Rightarrow> batch \<Rightarrow> bool" where
  "balanced st0 s \<longleftrightarrow>
     bytesConsidered s = totalBytesCopied s \<and>
     int (totalBytesConsidered (stats s)) - int (totalBytesCompressed (stats s)) =
       int (totalBytesConsidered st0) - int (totalBytesCompressed st0)"

text \<open>
  Every outstanding operation holds one of the runner's places, and the runner has
  given out no more than \<open>limit\<close> places.
\<close>

definition withinLimit :: "nat \<Rightarrow> batch \<Rightarrow> bool" where
  "withinLimit limit s \<longleftrightarrow> length (pendingOps s) \<le> running s \<and> running s \<le> limit"

text \<open>The run of a batch over a list of events, for each processor.\<close>

definition optimizeImagesRun ::
  "nat \<Rightarrow> nat \<Rightarrow> string \<Rightarrow> string \<Rightarrow> (nat \<times> (string + nat)) list \<Rightarrow> batch \<Rightarrow> batch" where
  "optimizeImagesRun numberOfCPUs now sourcePath destinationPath evs s =
     foldl (\<lambda>s ev. optimizeImagesSettle numberOfCPUs now sourcePath destinationPath ev s) s evs"

definition copyImagesRun ::
  "nat \<Rightarrow> nat \<Rightarrow> string \<Rightarrow> string \<Rightarrow> (string \<Rightarrow> string option) \<Rightarrow> (nat \<times> (string + nat)) list \<Rightarrow> batch \<Rightarrow> batch" where
  "copyImagesRun numberOfCPUs now sourcePath destinationPath copyFails evs s =
     foldl (\<lambda>s ev. copyImagesSettle numberOfCPUs now sourcePath destinationPath copyFails ev s) s evs"


section \<open>The named entries of a bundle\<close>

text \<open>
  What a bundle hands to the minifier, described from the file system: going through
  the list in order, every file that is not ignored and whose text is not empty is
  entered under its base name. Such a file is counted in the accumulator.
\<close>

definition counted :: "settings \<Rightarrow> filesystem \<Rightarrow> string \<Rightarrow> string \<Rightarrow> bool" where
  "counted globalConfiguration files source f \<longleftrightarrow>
     pathBasename f \<notin> set (jsFilesToIgnore globalConfiguration) \<and>
     (case contents files (pathJoin source f) of None \<Rightarrow> False | Some text \<Rightarrow> text \<noteq> [])"

definition entry ::
  "settings \<Rightarrow> filesystem \<Rightarrow> string \<Rightarrow> string \<Rightarrow> (string \<times> string) list \<Rightarrow> (string \<times> string) list" where
  "entry globalConfiguration files source f code =
     (if pathBasename f \<in> set (jsFilesToIgnore globalConfiguration) then code
      else (case contents files (pathJoin source f) of
              None \<Rightarrow> code
            | Some text \<Rightarrow> if text = [] then code else assign (pathBasename f) text code))"

fun namedEntries ::
  "settings \<Rightarrow> filesystem \<Rightarrow> string \<Rightarrow> (string \<times> string) list \<Rightarrow> string list \<Rightarrow> (string \<times> string) list" where
  "namedEntries globalConfiguration files source code [] = code"
| "namedEntries globalConfiguration files source code (f # rest) =
     namedEntries globalConfiguration files source
       (entry globalConfiguration files source f code) rest"

definition bundleJob :: "settings \<Rightarrow> settings \<Rightarrow> filesystem \<Rightarrow> string \<times> string list \<Rightarrow> job" where
  "bundleJob globalConfiguration varynConfiguration files bundle =
     \<lparr> packageName = pathParseName (last (snd bundle)) @ ''.min.js'',
       terserCode = namedEntries globalConfiguration files (jsSource varynConfiguration) []
                      (snd bundle),
       options = makeTerserOptions varynConfiguration \<rparr>"

definition countedFiles :: "settings \<Rightarrow> settings \<Rightarrow> filesystem \<Rightarrow> string \<times> string list \<Rightarrow> nat" where
  "countedFiles globalConfiguration varynConfiguration files bundle =
     length (filter (counted globalConfiguration files (jsSource varynConfiguration)) (snd bundle))"

text \<open>A small site, for the scenarios: four scripts and the destination folder.\<close>

definition siteFiles :: filesystem where
  "siteFiles =
     \<lparr> contents = [''public/js/a.js'' \<mapsto> ''var a = 1;'', ''public/js/b.js'' \<mapsto> ''var b = 2;'',
                    ''public/js/home.js'' \<mapsto> ''a + 1;'', ''public/js/about.js'' \<mapsto> ''b + 1;'',
                    ''public/js/common.js'' \<mapsto> ''var c;''],
       folders = [''.'', ''public'', ''public/js'', ''distrib'', ''distrib/js''] \<rparr>"

definition siteSettings :: "(string \<times> string list) list \<Rightarrow> settings" where
  "siteSettings manifest =
     \<lparr> jsSource = ''public/js'', jsDestination = ''distrib/js'', pageManifest = manifest,
       jsFilesToIgnore = [], isCompressJavaScript = True, isMangleJavaScript = True \<rparr>"

section \<open>The state of a plain-copy batch\<close>

text \<open>
  What holds of a plain-copy batch at every moment, \<open>st0\<close> being the accumulator
  before the batch: every outstanding \<^verbatim>\<open>stat\<close> holds a place; the promise is
  settled exactly when the final callback has run; a resolved batch has nothing
  outstanding, nothing waiting, and has added its counters to the accumulator; until
  the final callback runs the accumulator is untouched; a runner that stopped without
  the final callback having run has handed out every file.
\<close>

definition copyState :: "nat \<Rightarrow> compressionStats \<Rightarrow> batch \<Rightarrow> bool" where
  "copyState now st0 s \<longleftrightarrow>
     length (pendingOps s) \<le> running s \<and>
     (finished s \<longleftrightarrow> promise s \<noteq> Pending) \<and>
     (promise s = Resolved \<longrightarrow>
        stopped s \<and> pendingOps s = [] \<and> queue s = [] \<and> running s = 0 \<and>
        stats s = addToStats (totalFilesCopied s) (bytesConsidered s) (totalBytesCopied s)
                    now st0) \<and>
     (\<not> finished s \<longrightarrow> stats s = st0) \<and>
     (stopped s \<and> \<not> finished s \<longrightarrow> queue s = [])"

section \<open>Properties of configuration resolution\<close>

lemma info_configuration [simp]: "configuration (info m st) = configuration st"
  by (simp add: info_def logInfo_def)

lemma err_configuration [simp]: "configuration (err m st) = configuration st"
  by (simp add: err_def logError_def)

lemma info_console: "set (console st) \<subseteq> set (console (info m st))"
  by (auto simp: info_def logInfo_def)

lemma setProperty_configuration:
  "configuration (setProperty props st p) =
     (if p \<in> dom props then (configuration st)(p \<mapsto> getProp props p) else configuration st)"
  by (simp add: setProperty_def Let_def)

lemma foldl_setProperty_configuration:
  "configuration (foldl (setProperty props) st ps) k =
     (if k \<in> set ps \<and> k \<in> dom props then Some (getProp props k) else configuration st k)"
  by (induction ps arbitrary: st) (auto simp: setProperty_configuration)

text \<open>
  \<^verbatim>\<open>matchProperties\<close> copies exactly the configurable properties that the given object
  has, and leaves every other property of the configuration alone.
\<close>

lemma matchProperties_configuration:
  "configuration (matchProperties props st) k =
     (if k \<in> set configurableProperties \<and> k \<in> dom props then Some (getProp props k)
      else configuration st k)"
  by (simp add: matchProperties_def foldl_setProperty_configuration)

lemma setProperty_console:
  "set (console st) \<subseteq> set (console (setProperty props st p))"
  using info_console by (auto simp: setProperty_def Let_def)

lemma foldl_setProperty_console:
  "set (console st) \<subseteq> set (console (foldl (setProperty props) st ps))"
proof (induction ps arbitrary: st)
  case Nil
  then show ?case by simp
next
  case (Cons p ps)
  have "set (console st) \<subseteq> set (console (setProperty props st p))"
    by (rule setProperty_console)
  also have "\<dots> \<subseteq> set (console (foldl (setProperty props) (setProperty props st p) ps))"
    by (rule Cons.IH)
  finally show ?case by simp
qed

lemma matchProperties_console:
  "set (console st) \<subseteq> set (console (matchProperties props st))"
  by (simp add: matchProperties_def foldl_setProperty_console)

lemma getArgs_given: "argv k = Some v \<Longrightarrow> getArgs argv k = Some v"
  by (auto simp: getArgs_def Let_def)

lemma getArgs_config_default:
  "''config'' \<notin> dom argv \<Longrightarrow> getProp (getArgs argv) ''config'' = Str ''./bin/build-config.json''"
  by (auto simp: getArgs_def Let_def getProp_def)

lemma getArgs_verbose: "''verbose'' \<in> dom (getArgs argv)"
  by (auto simp: getArgs_def Let_def)

text \<open>
  The logging switch for errors is on from the moment the command line is read, and
  nothing in the resolution turns it off.
\<close>

lemma isLoggingError_on:
  "getProp (configuration (snd (updateConfiguration argv cfgFile))) ''isLoggingError'' = Bool True"
  by (cases cfgFile)
     (simp_all add: updateConfiguration_def Let_def matchProperties_configuration
        getCommandLineArguments_def configurableProperties_def getProp_def)

text \<open>A property given on the command line wins, whatever the file and the defaults say.\<close>

lemma resolved_cli_wins:
  assumes "k \<in> set configurableProperties" and "argv k = Some v"
    and "fst (updateConfiguration argv cfgFile)"
  shows "resolved argv cfgFile k = v"
  using assms getArgs_given [of argv k v]
  by (cases cfgFile)
     (auto simp: resolved_def updateConfiguration_def Let_def matchProperties_configuration
        getProp_def split: if_splits prod.splits option.splits)

text \<open>
  A configurable property that the file has and the parsed command line has not takes
  the file's value.
\<close>

lemma resolved_file_over_default:
  assumes "k \<in> set configurableProperties" and "data k = Some v"
    and "k \<notin> dom (getArgs argv)" and "notNullish (getProp (getArgs argv) ''config'')"
  shows "resolved argv (Parsed data) k = v"
  using assms
  by (auto simp: resolved_def updateConfiguration_def Let_def matchProperties_configuration
        getProp_def)

text \<open>
  Scenario 2 of the specification: the file sets \<^verbatim>\<open>optimizeImages\<close> to false and the
  command line does not mention it.
\<close>

lemma scenario_file_disables_optimizeImages:
  "resolved Map.empty (Parsed [''optimizeImages'' \<mapsto> Bool False]) ''optimizeImages'' = Bool False"
  by (rule resolved_file_over_default)
     (simp_all add: configurableProperties_def getArgs_def Let_def getProp_def)

text \<open>
  A property outside the list of configurable ones keeps its default whatever the file
  says: the page manifest cannot be set from the file.
\<close>

lemma pageManifest_not_configurable:
  "resolved argv cfgFile ''pageManifest'' = Obj []"
  by (cases cfgFile)
     (simp_all add: resolved_def updateConfiguration_def Let_def matchProperties_configuration
        getCommandLineArguments_def configurableProperties_def getProp_def initialState_def
        defaultConfiguration_def)

text \<open>
  With a missing or unreadable file the resolution still resolves, after logging an
  error, and the file contributes nothing.
\<close>

lemma missing_file_resolves:
  assumes "notNullish (getProp (getArgs argv) ''config'')"
  shows "fst (updateConfiguration argv Missing) \<and>
         Warn [S ''Configuration file '', V (getProp (getArgs argv) ''config''),
               S '' does not exist, continuing with the default configuration.'']
           \<in> set (console (snd (updateConfiguration argv Missing)))"
proof -
  let ?m = "[S ''Configuration file '', V (getProp (getArgs argv) ''config''),
             S '' does not exist, continuing with the default configuration.'']"
  let ?st = "err ?m (info [S ''got config''] (getCommandLineArguments (getArgs argv) initialState))"
  have "Warn ?m \<in> set (console ?st)"
    by (simp add: err_def logError_def getCommandLineArguments_def getProp_def)
  then have "Warn ?m \<in> set (console (matchProperties (getArgs argv) ?st))"
    using matchProperties_console by blast
  then show ?thesis
    using assms by (simp add: updateConfiguration_def Let_def)
qed

lemma unparseable_file_resolves:
  assumes "notNullish (getProp (getArgs argv) ''config'')"
  shows "fst (updateConfiguration argv (Unparseable e)) \<and>
         Warn [S ''Configuration file '', V (getProp (getArgs argv) ''config''),
               S '' error when reading: '', S e]
           \<in> set (console (snd (updateConfiguration argv (Unparseable e))))"
proof -
  let ?m = "[S ''Configuration file '', V (getProp (getArgs argv) ''config''),
             S '' error when reading: '', S e]"
  let ?st0 = "getCommandLineArguments (getArgs argv) initialState"
  let ?st = "err ?m (info [S ''Configuration file '', V (getProp (getArgs argv) ''config''),
                           S '' overriding any matching default options.'']
                       (info [S ''got config''] ?st0))"
  let ?st5 = "info [S ''CLI overriding any matching options.''] (matchProperties Map.empty ?st)"
  have "Warn ?m \<in> set (console ?st)"
    by (simp add: err_def logError_def getCommandLineArguments_def getProp_def)
  then have "Warn ?m \<in> set (console ?st5)"
    using matchProperties_console info_console by blast
  then have "Warn ?m \<in> set (console (matchProperties (getArgs argv) ?st5))"
    using matchProperties_console by blast
  then show ?thesis
    using assms by (simp add: updateConfiguration_def Let_def)
qed

text \<open>
  Without a file, \<^verbatim>\<open>optimizeImages\<close> resolves to whatever the parsed command line
  holds for it, \<^verbatim>\<open>undefined\<close> when it holds nothing: the default plays no part.
\<close>

lemma optimizeImages_without_file:
  assumes "notNullish (getProp (getArgs argv) ''config'')"
  shows "resolved argv Missing ''optimizeImages'' = getProp argv ''optimizeImages''"
proof -
  have "getProp (getArgs argv) ''optimizeImages'' = getProp argv ''optimizeImages''"
    by (simp add: getArgs_def Let_def getProp_def)
  then show ?thesis
    using assms
    by (simp add: resolved_def updateConfiguration_def Let_def matchProperties_configuration
          getCommandLineArguments_def getProp_def)
qed

text \<open>
  C3. The claim: command line over file over defaults, and a property set nowhere keeps
  its default; with no file and no flags \<^verbatim>\<open>optimizeImages\<close> is true and
  \<^verbatim>\<open>jsDestination\<close> is \<^verbatim>\<open>./distrib/js\<close>. The code at that input: the resolution
  resolves and \<^verbatim>\<open>jsDestination\<close> has its default, but \<^verbatim>\<open>optimizeImages\<close> is
  \<^verbatim>\<open>undefined\<close>, not its default \<^verbatim>\<open>true\<close>, because \<^verbatim>\<open>getCommandLineArguments\<close>
  stores the value of a flag that was not given.
\<close>

theorem defaults_only_resolution:
  "fst (updateConfiguration Map.empty Missing) \<and>
   resolved Map.empty Missing ''jsDestination'' = Str ''./distrib/js'' \<and>
   getProp defaultConfiguration ''optimizeImages'' = Bool True \<and>
   mergedByPriority defaultConfiguration Map.empty Map.empty ''optimizeImages'' = Bool True \<and>
   resolved Map.empty Missing ''optimizeImages'' = Undefined"
  by (simp add: resolved_def updateConfiguration_def getArgs_def getCommandLineArguments_def
      initialState_def matchProperties_configuration getProp_def configurableProperties_def
      Let_def defaultConfiguration_def mergedByPriority_def)

text \<open>
  C7. The claim: with a missing or unparseable file the resolution logs an error and
  completes with the defaults merged with the command line's flags, and never rejects.
  The code at an unparseable file and no flags: it resolves and the error is logged, but
  \<^verbatim>\<open>optimizeImages\<close> is \<^verbatim>\<open>undefined\<close> where the defaults merged with the flags have
  \<^verbatim>\<open>true\<close>.
\<close>

theorem unparseable_file_resolution:
  "fst (updateConfiguration Map.empty (Unparseable ''SyntaxError'')) \<and>
   Warn [S ''Configuration file '', V (Str ''./bin/build-config.json''),
         S '' error when reading: '', S ''SyntaxError'']
     \<in> set (console (snd (updateConfiguration Map.empty (Unparseable ''SyntaxError'')))) \<and>
   mergedByPriority defaultConfiguration Map.empty Map.empty ''optimizeImages'' = Bool True \<and>
   resolved Map.empty (Unparseable ''SyntaxError'') ''optimizeImages'' = Undefined"
proof -
  have cfg: "notNullish (getProp (getArgs Map.empty) ''config'')"
    by (simp add: getArgs_config_default)
  have "resolved Map.empty (Unparseable ''SyntaxError'') ''optimizeImages'' = Undefined"
    by (simp add: resolved_def updateConfiguration_def getArgs_def getCommandLineArguments_def
        initialState_def matchProperties_configuration getProp_def configurableProperties_def
        Let_def defaultConfiguration_def)
  moreover have "mergedByPriority defaultConfiguration Map.empty Map.empty ''optimizeImages'' = Bool True"
    by (simp add: mergedByPriority_def getProp_def defaultConfiguration_def)
  ultimately show ?thesis
    using unparseable_file_resolves [OF cfg, of "''SyntaxError''"]
    by (simp add: getArgs_config_default)
qed


section \<open>Properties of the orchestrator\<close>

lemma say_console:
  "console (say m w) = (if isLoggingInfo w then console w @ [Log m] else console w)"
  by (simp add: say_def logInfo_def)


lemma say_world [simp]:
  "stats (say m w) = stats w" "isLoggingInfo (say m w) = isLoggingInfo w"
  "isLoggingError (say m w) = isLoggingError w"
  by (simp_all add: say_def logInfo_def)

lemma complain_world [simp]:
  "stats (complain m w) = stats w" "isLoggingInfo (complain m w) = isLoggingInfo w"
  "isLoggingError (complain m w) = isLoggingError w"
  by (simp_all add: complain_def logError_def)





lemma promiseAll_resolved:
  "promiseAll ps = Resolved \<longleftrightarrow> (\<forall>p \<in> set ps. p = Resolved)"
  by (induction ps rule: promiseAll.induct) (auto split: outcome.splits)

text \<open>
  When every processor resolves, the summary is printed (given that an image batch has
  set the end time, which it does before it resolves).
\<close>

lemma runBuild_all_resolved:
  assumes "\<forall>p \<in> set ps. p = Resolved" and "endTime (stats w) = Some t" and "isLoggingInfo w"
  shows "Log [S ''Build stats:''] \<in> set (console (runBuild version ps w))"
proof -
  have "promiseAll ps = Resolved"
    using assms(1) by (simp add: promiseAll_resolved)
  then show ?thesis
    using assms(2,3) by (simp add: runBuild_def showStats_def Let_def say_console)
qed





section \<open>Properties of the image batches\<close>

subsection \<open>Logging touches the console only\<close>

lemma say_batch [simp]:
  "queue (say m s) = queue s" "running (say m s) = running s" "stopped (say m s) = stopped s"
  "finished (say m s) = finished s" "pendingOps (say m s) = pendingOps s"
  "totalFilesCopied (say m s) = totalFilesCopied s" "bytesConsidered (say m s) = bytesConsidered s"
  "totalBytesCopied (say m s) = totalBytesCopied s" "promise (say m s) = promise s"
  "crashed (say m s) = crashed s"
  by (simp_all add: say_def logInfo_def)

lemma complain_batch [simp]:
  "queue (complain m s) = queue s" "running (complain m s) = running s"
  "stopped (complain m s) = stopped s" "finished (complain m s) = finished s"
  "pendingOps (complain m s) = pendingOps s" "totalFilesCopied (complain m s) = totalFilesCopied s"
  "bytesConsidered (complain m s) = bytesConsidered s"
  "totalBytesCopied (complain m s) = totalBytesCopied s" "promise (complain m s) = promise s"
  "crashed (complain m s) = crashed s"
  by (simp_all add: complain_def logError_def)

lemma length_dropAt: "i < length xs \<Longrightarrow> length (dropAt i xs) = length xs - 1"
  by (simp add: dropAt_def)

lemma if_both: "P x \<Longrightarrow> P y \<Longrightarrow> P (if c then x else y)"
  by simp

subsection \<open>What the runner preserves\<close>

text \<open>
  A property that the per-item function and the final callback preserve, and that does
  not depend on the runner's own bookkeeping, is preserved by the runner.
\<close>

lemma finalCallback_preserves:
  assumes cb: "\<And>e s. P s \<Longrightarrow> P (callback e s)"
    and fin: "\<And>s b. P s \<Longrightarrow> P (s\<lparr>finished := b\<rparr>)"
  shows "P s \<Longrightarrow> P (finalCallback callback e s)"
  by (simp add: finalCallback_def cb fin)

lemma replenish_preserves:
  assumes it: "\<And>x s. P s \<Longrightarrow> P (iteratee x s)"
    and cb: "\<And>e s. P s \<Longrightarrow> P (callback e s)"
    and q: "\<And>s v. P s \<Longrightarrow> P (s\<lparr>queue := v\<rparr>)"
    and r: "\<And>s v. P s \<Longrightarrow> P (s\<lparr>running := v\<rparr>)"
    and st: "\<And>s v. P s \<Longrightarrow> P (s\<lparr>stopped := v\<rparr>)"
    and fin: "\<And>s v. P s \<Longrightarrow> P (s\<lparr>finished := v\<rparr>)"
  shows "P s \<Longrightarrow> P (replenish iteratee callback limit items s)"
proof (induction items arbitrary: s)
  case Nil
  have "P (s\<lparr>queue := [], stopped := True\<rparr>)"
    using Nil q st by blast
  then have "P (finalCallback callback None (s\<lparr>queue := [], stopped := True\<rparr>))"
    using finalCallback_preserves [of P callback] cb fin by blast
  then show ?case
    using Nil q st by (simp add: Let_def)
next
  case (Cons elem rest)
  have "P (iteratee elem (s\<lparr>queue := rest, running := running s + 1\<rparr>))"
    using Cons.prems it q r by blast
  then have "P (replenish iteratee callback limit rest
                  (iteratee elem (s\<lparr>queue := rest, running := running s + 1\<rparr>)))"
    by (rule Cons.IH)
  then show ?case
    using Cons.prems q by simp
qed

lemma iterateeCallback_preserves:
  assumes it: "\<And>x s. P s \<Longrightarrow> P (iteratee x s)"
    and cb: "\<And>e s. P s \<Longrightarrow> P (callback e s)"
    and q: "\<And>s v. P s \<Longrightarrow> P (s\<lparr>queue := v\<rparr>)"
    and r: "\<And>s v. P s \<Longrightarrow> P (s\<lparr>running := v\<rparr>)"
    and st: "\<And>s v. P s \<Longrightarrow> P (s\<lparr>stopped := v\<rparr>)"
    and fin: "\<And>s v. P s \<Longrightarrow> P (s\<lparr>finished := v\<rparr>)"
  shows "P s \<Longrightarrow> P (iterateeCallback iteratee callback limit error s)"
proof -
  assume s: "P s"
  let ?s1 = "s\<lparr>running := running s - 1\<rparr>"
  have s1: "P ?s1" using s r by blast
  show ?thesis
  proof (cases error)
    case (Some e)
    have "P (?s1\<lparr>stopped := True\<rparr>)" using s1 st by blast
    then have "P (finalCallback callback (Some e) (?s1\<lparr>stopped := True\<rparr>))"
      using finalCallback_preserves [of P callback] cb fin by blast
    then show ?thesis by (simp add: iterateeCallback_def Let_def Some)
  next
    case None
    have a: "P (finalCallback callback None ?s1)"
      using s1 finalCallback_preserves [of P callback] cb fin by blast
    have b: "P (replenish iteratee callback limit (queue ?s1) ?s1)"
      by (rule replenish_preserves [where P = P, OF it cb q r st fin s1])
    have "iterateeCallback iteratee callback limit error s =
            (if stopped ?s1 \<and> running ?s1 = 0 then finalCallback callback None ?s1
             else replenish iteratee callback limit (queue ?s1) ?s1)"
      by (simp only: iterateeCallback_def Let_def None option.case)
    then show ?thesis
      using a b by (simp only: if_both)
  qed
qed

subsection \<open>Plain copy: no savings\<close>

lemma copyImagesDone_balanced: "balanced st0 s \<Longrightarrow> balanced st0 (copyImagesDone now e s)"
  by (cases e) (simp_all add: balanced_def copyImagesDone_def addToStats_def Let_def)

lemma copyImagesItem_balanced: "balanced st0 s \<Longrightarrow> balanced st0 (copyImagesItem x s)"
  by (simp add: balanced_def copyImagesItem_def)

lemma copy_callback_balanced:
  "balanced st0 s \<Longrightarrow>
   balanced st0 (iterateeCallback copyImagesItem (copyImagesDone now) limit error s)"
  by (rule iterateeCallback_preserves [where P = "balanced st0"])
     (simp_all add: copyImagesDone_balanced copyImagesItem_balanced, simp_all add: balanced_def)

lemma copyImagesSettle_balanced:
  assumes "balanced st0 s"
  shows "balanced st0 (copyImagesSettle cpus now src dst copyFails ev s)"
proof (cases ev)
  case (Pair i result)
  let ?s1 = "s\<lparr>pendingOps := dropAt i (pendingOps s)\<rparr>"
  have s1: "balanced st0 ?s1"
    using assms by (simp add: balanced_def)
  have e: "\<And>m error. balanced st0
             (iterateeCallback copyImagesItem (copyImagesDone now) cpus error (complain m ?s1))"
    using s1 by (intro copy_callback_balanced) (simp add: balanced_def)
  have k: "\<And>m n. balanced st0
             (iterateeCallback copyImagesItem (copyImagesDone now) cpus None
                (say m (?s1\<lparr>totalFilesCopied := totalFilesCopied ?s1 + 1,
                            bytesConsidered := bytesConsidered ?s1 + n,
                            totalBytesCopied := totalBytesCopied ?s1 + n\<rparr>)))"
    using s1 by (intro copy_callback_balanced) (simp add: balanced_def)
  have c: "\<And>x. balanced st0 (?s1\<lparr>crashed := x\<rparr>)"
    using s1 by (simp add: balanced_def)
  show ?thesis
    using assms e k c
    by (simp add: copyImagesSettle_def Pair Let_def
          split: option.split pending.split sum.split)
qed

lemma copyImagesRun_balanced:
  "balanced st0 s \<Longrightarrow> balanced st0 (copyImagesRun cpus now src dst copyFails evs s)"
  unfolding copyImagesRun_def
  by (induction evs arbitrary: s) (simp_all add: copyImagesSettle_balanced)

lemma freshBatch_balanced: "balanced (stats w) (say m (freshBatch w))"
  by (simp add: balanced_def freshBatch_def)

lemma copyImages_balanced:
  "balanced (stats w) (copyImages cpus now globSpec dst files w)"
proof -
  let ?s0 = "say [S ''Starting image copy with '', S globSpec, S '' to '', S dst] (freshBatch w)"
  have s0: "balanced (stats w) (?s0\<lparr>queue := files\<rparr>)"
    using freshBatch_balanced [of w] by (simp add: balanced_def)
  have "balanced (stats w)
          (replenish copyImagesItem (copyImagesDone now) cpus files (?s0\<lparr>queue := files\<rparr>))"
    by (rule replenish_preserves [where P = "balanced (stats w)"])
       (simp_all add: copyImagesDone_balanced copyImagesItem_balanced s0, simp_all add: balanced_def)
  moreover have "balanced (stats w) (?s0\<lparr>crashed := x\<rparr>)" for x
    using freshBatch_balanced [of w] by (simp add: balanced_def)
  ultimately show ?thesis
    by (simp add: copyImages_def eachLimit_def)
qed

text \<open>
  Plain-copy mode is what \<^verbatim>\<open>handleImages\<close> runs when the resolved property is
  false, and also when it is \<^verbatim>\<open>undefined\<close>, as it is after a resolution from the
  defaults alone.
\<close>

lemma handleImages_plain_copy:
  "handleImages (Bool False) cpus now globSpec dst files w
     = copyImages cpus now globSpec dst files w \<and>
   handleImages (resolved Map.empty Missing ''optimizeImages'') cpus now globSpec dst files w
     = copyImages cpus now globSpec dst files w"
proof -
  have "resolved Map.empty Missing ''optimizeImages'' = Undefined"
    by (simp add: resolved_def updateConfiguration_def getArgs_def getCommandLineArguments_def
        initialState_def matchProperties_configuration getProp_def configurableProperties_def
        Let_def)
  then show ?thesis
    by (simp add: handleImages_def)
qed

text \<open>
  C9. In plain-copy mode, whatever the files, the limit, and the order and results of
  the \<^verbatim>\<open>stat\<close> calls: the batch's two byte counters are equal, and the accumulator's
  savings (bytes considered minus bytes compressed) are what they were before the
  batch. A successful copy adds the file's size to both counters.
\<close>

theorem copyImages_saves_nothing:
  "bytesConsidered (copyImagesRun cpus now src dst copyFails evs
                      (copyImages cpus now globSpec dst files w))
     = totalBytesCopied (copyImagesRun cpus now src dst copyFails evs
                           (copyImages cpus now globSpec dst files w)) \<and>
   int (totalBytesConsidered (stats (copyImagesRun cpus now src dst copyFails evs
                                       (copyImages cpus now globSpec dst files w))))
     - int (totalBytesCompressed (stats (copyImagesRun cpus now src dst copyFails evs
                                           (copyImages cpus now globSpec dst files w))))
     = int (totalBytesConsidered (stats w)) - int (totalBytesCompressed (stats w))"
  using copyImagesRun_balanced [OF copyImages_balanced]
  by (simp add: balanced_def)

theorem copyImages_saves_nothing_witness:
  "totalFiles (stats (copyImagesRun 2 5 ''public/images'' ''distrib/images'' (\<lambda>f. None)
                        [(0, Inr 10), (0, Inr 20), (0, Inr 30)]
                        (copyImages 2 5 ''public/images/**/*.png'' ''distrib/images''
                           [''a.png'', ''b.png'', ''c.png''] (initialWorld 0)))) = 3 \<and>
   totalBytesConsidered (stats (copyImagesRun 2 5 ''public/images'' ''distrib/images'' (\<lambda>f. None)
                        [(0, Inr 10), (0, Inr 20), (0, Inr 30)]
                        (copyImages 2 5 ''public/images/**/*.png'' ''distrib/images''
                           [''a.png'', ''b.png'', ''c.png''] (initialWorld 0)))) = 60 \<and>
   totalBytesCompressed (stats (copyImagesRun 2 5 ''public/images'' ''distrib/images'' (\<lambda>f. None)
                        [(0, Inr 10), (0, Inr 20), (0, Inr 30)]
                        (copyImages 2 5 ''public/images/**/*.png'' ''distrib/images''
                           [''a.png'', ''b.png'', ''c.png''] (initialWorld 0)))) = 60"
proof -
  let ?r = "copyImagesRun 2 5 ''public/images'' ''distrib/images'' (\<lambda>f. None)
              [(0, Inr 10), (0, Inr 20), (0, Inr 30)]
              (copyImages 2 5 ''public/images/**/*.png'' ''distrib/images''
                 [''a.png'', ''b.png'', ''c.png''] (initialWorld 0))"
  have run: "totalFiles (stats ?r) = 3" "totalBytesConsidered (stats ?r) = 60"
    by (simp_all add: copyImagesRun_def copyImages_def eachLimit_def copyImagesSettle_def
          iterateeCallback_def finalCallback_def copyImagesItem_def copyImagesDone_def
          addToStats_def freshBatch_def initialWorld_def dropAt_def Let_def)
  from copyImages_saves_nothing [of 2 5 "''public/images''" "''distrib/images''" "\<lambda>f. None"
      "[(0, Inr 10), (0, Inr 20), (0, Inr 30)]" "''public/images/**/*.png''"
      "[''a.png'', ''b.png'', ''c.png'']" "initialWorld 0"]
  have "int (totalBytesConsidered (stats ?r)) - int (totalBytesCompressed (stats ?r))
          = int (totalBytesConsidered (stats (initialWorld 0)))
            - int (totalBytesCompressed (stats (initialWorld 0)))"
    by (rule conjunct2)
  then have "totalBytesCompressed (stats ?r) = totalBytesConsidered (stats ?r)"
    by (simp add: initialWorld_def)
  with run show ?thesis by simp
qed

subsection \<open>Plain copy: each copy counts once, and the limit holds\<close>

lemma copyImagesDone_frame [simp]:
  "queue (copyImagesDone now e s) = queue s" "running (copyImagesDone now e s) = running s"
  "stopped (copyImagesDone now e s) = stopped s" "finished (copyImagesDone now e s) = finished s"
  "pendingOps (copyImagesDone now e s) = pendingOps s"
  "totalFilesCopied (copyImagesDone now e s) = totalFilesCopied s"
  "bytesConsidered (copyImagesDone now e s) = bytesConsidered s"
  "totalBytesCopied (copyImagesDone now e s) = totalBytesCopied s"
  "crashed (copyImagesDone now e s) = crashed s"
  by (cases e; simp add: copyImagesDone_def Let_def)+

lemma optimizeImagesDone_frame [simp]:
  "queue (optimizeImagesDone now e s) = queue s" "running (optimizeImagesDone now e s) = running s"
  "stopped (optimizeImagesDone now e s) = stopped s"
  "finished (optimizeImagesDone now e s) = finished s"
  "pendingOps (optimizeImagesDone now e s) = pendingOps s"
  "totalFilesCopied (optimizeImagesDone now e s) = totalFilesCopied s"
  "bytesConsidered (optimizeImagesDone now e s) = bytesConsidered s"
  "totalBytesCopied (optimizeImagesDone now e s) = totalBytesCopied s"
  "crashed (optimizeImagesDone now e s) = crashed s"
  by (cases e; simp add: optimizeImagesDone_def Let_def)+

lemma copy_callback_counters:
  "totalFilesCopied (iterateeCallback copyImagesItem (copyImagesDone now) limit error s)
     = totalFilesCopied s \<and>
   bytesConsidered (iterateeCallback copyImagesItem (copyImagesDone now) limit error s)
     = bytesConsidered s \<and>
   totalBytesCopied (iterateeCallback copyImagesItem (copyImagesDone now) limit error s)
     = totalBytesCopied s"
proof -
  let ?P = "\<lambda>t. totalFilesCopied t = totalFilesCopied s \<and> bytesConsidered t = bytesConsidered s
                \<and> totalBytesCopied t = totalBytesCopied s"
  have "?P (iterateeCallback copyImagesItem (copyImagesDone now) limit error s)"
    by (rule iterateeCallback_preserves [where P = ?P]) (simp_all add: copyImagesItem_def)
  then show ?thesis by simp
qed

text \<open>A successful copy adds the size of the file to both byte counters of the batch.\<close>

lemma copy_success_counts_size_twice:
  assumes "crashed s = None" and "i < length (pendingOps s)"
    and "pendingOps s ! i = CopyStatPending f" and "copyFails f = None"
  shows "bytesConsidered (copyImagesSettle cpus now src dst copyFails (i, Inr n) s)
           = bytesConsidered s + n \<and>
         totalBytesCopied (copyImagesSettle cpus now src dst copyFails (i, Inr n) s)
           = totalBytesCopied s + n \<and>
         totalFilesCopied (copyImagesSettle cpus now src dst copyFails (i, Inr n) s)
           = totalFilesCopied s + 1"
  using assms by (simp add: copyImagesSettle_def Let_def copy_callback_counters)

lemma finalCallback_copy_frame [simp]:
  "queue (finalCallback (copyImagesDone now) e s) = queue s"
  "running (finalCallback (copyImagesDone now) e s) = running s"
  "stopped (finalCallback (copyImagesDone now) e s) = stopped s"
  "pendingOps (finalCallback (copyImagesDone now) e s) = pendingOps s"
  "crashed (finalCallback (copyImagesDone now) e s) = crashed s"
  by (simp_all add: finalCallback_def)

lemma finalCallback_copy_withinLimit:
  "withinLimit limit (finalCallback (copyImagesDone now) e s) = withinLimit limit s"
  by (simp add: withinLimit_def)

lemma replenish_copy_withinLimit:
  "withinLimit limit s \<Longrightarrow>
   withinLimit limit (replenish copyImagesItem (copyImagesDone now) limit items s)"
proof (induction items arbitrary: s)
  case Nil
  then show ?case
    by (auto simp: Let_def finalCallback_copy_withinLimit withinLimit_def)
next
  case (Cons elem rest)
  show ?case
  proof (cases "running s < limit \<and> \<not> stopped s")
    case True
    have "withinLimit limit (copyImagesItem elem (s\<lparr>queue := rest, running := running s + 1\<rparr>))"
      using Cons.prems True by (simp add: withinLimit_def copyImagesItem_def)
    then show ?thesis
      using True Cons.IH by simp
  next
    case False
    then show ?thesis
      using Cons.prems by (auto simp: withinLimit_def)
  qed
qed

lemma copy_callback_withinLimit:
  assumes "length (pendingOps s) < running s" and "running s \<le> limit"
  shows "withinLimit limit (iterateeCallback copyImagesItem (copyImagesDone now) limit error s)"
proof -
  let ?s1 = "s\<lparr>running := running s - 1\<rparr>"
  have s1: "withinLimit limit ?s1"
    using assms by (auto simp: withinLimit_def)
  show ?thesis
  proof (cases error)
    case (Some e)
    have "withinLimit limit (?s1\<lparr>stopped := True\<rparr>)"
      using s1 by (simp add: withinLimit_def)
    then show ?thesis
      by (simp add: iterateeCallback_def Let_def Some finalCallback_copy_withinLimit)
  next
    case None
    have a: "withinLimit limit (finalCallback (copyImagesDone now) None ?s1)"
      using s1 by (simp add: finalCallback_copy_withinLimit)
    have b: "withinLimit limit
               (replenish copyImagesItem (copyImagesDone now) limit (queue ?s1) ?s1)"
      using s1 by (rule replenish_copy_withinLimit)
    have "iterateeCallback copyImagesItem (copyImagesDone now) limit error s =
            (if stopped ?s1 \<and> running ?s1 = 0 then finalCallback (copyImagesDone now) None ?s1
             else replenish copyImagesItem (copyImagesDone now) limit (queue ?s1) ?s1)"
      by (simp only: iterateeCallback_def Let_def None option.case)
    then show ?thesis
      using a b by (simp only: if_both)
  qed
qed

lemma copyImagesSettle_withinLimit:
  assumes "withinLimit cpus s"
  shows "withinLimit cpus (copyImagesSettle cpus now src dst copyFails ev s)"
proof (cases ev)
  case (Pair i result)
  show ?thesis
  proof (cases "crashed s = None \<and> i < length (pendingOps s)")
    case False
    then show ?thesis
      using assms by (auto simp: copyImagesSettle_def Pair split: option.splits)
  next
    case True
    let ?s1 = "s\<lparr>pendingOps := dropAt i (pendingOps s)\<rparr>"
    have len: "length (pendingOps ?s1) < running s" and run: "running s \<le> cpus"
      using assms True by (auto simp: withinLimit_def length_dropAt)
    have e: "\<And>m error. withinLimit cpus
               (iterateeCallback copyImagesItem (copyImagesDone now) cpus error (complain m ?s1))"
      using len run by (intro copy_callback_withinLimit) simp_all
    have k: "\<And>m n. withinLimit cpus
               (iterateeCallback copyImagesItem (copyImagesDone now) cpus None
                  (say m (?s1\<lparr>totalFilesCopied := totalFilesCopied ?s1 + 1,
                              bytesConsidered := bytesConsidered ?s1 + n,
                              totalBytesCopied := totalBytesCopied ?s1 + n\<rparr>)))"
      using len run by (intro copy_callback_withinLimit) simp_all
    have c: "\<And>x. withinLimit cpus (?s1\<lparr>crashed := x\<rparr>)"
      using len run by (auto simp: withinLimit_def)
    show ?thesis
      using assms e k c True
      by (simp add: copyImagesSettle_def Pair Let_def
            split: option.split pending.split sum.split)
  qed
qed

lemma copyImages_withinLimit:
  "withinLimit cpus (copyImages cpus now globSpec dst files w)"
proof (cases "cpus = 0")
  case True
  then show ?thesis
    by (simp add: copyImages_def eachLimit_def withinLimit_def freshBatch_def)
next
  case False
  let ?s0 = "(say [S ''Starting image copy with '', S globSpec, S '' to '', S dst]
               (freshBatch w))\<lparr>queue := files\<rparr>"
  have "withinLimit cpus ?s0"
    by (simp add: withinLimit_def freshBatch_def)
  then have "withinLimit cpus (replenish copyImagesItem (copyImagesDone now) cpus files ?s0)"
    by (rule replenish_copy_withinLimit)
  then show ?thesis
    using False by (simp add: copyImages_def eachLimit_def)
qed

text \<open>
  In plain-copy mode the number of files in flight never exceeds the limit: the
  callback of \<^verbatim>\<open>stat\<close> does all the work of a file before it frees the place.
\<close>

lemma copyImages_never_exceeds_limit:
  "length (pendingOps (copyImagesRun cpus now src dst copyFails evs
                         (copyImages cpus now globSpec dst files w))) \<le> cpus"
proof -
  have "withinLimit cpus s \<Longrightarrow> withinLimit cpus (copyImagesRun cpus now src dst copyFails evs s)"
    for s
    unfolding copyImagesRun_def
    by (induction evs arbitrary: s) (simp_all add: copyImagesSettle_withinLimit)
  from this [OF copyImages_withinLimit [of cpus now globSpec dst files w]] show ?thesis
    by (simp add: withinLimit_def)
qed

subsection \<open>Optimizing: the place is freed before the file is done\<close>


text \<open>The callback of \<^verbatim>\<open>stat\<close> never writes to the accumulator.\<close>

lemma optimize_stat_leaves_stats:
  assumes "i < length (pendingOps s)" and "pendingOps s ! i = OptimizeStatPending f n"
  shows "stats (optimizeImagesSettle cpus now src dst (i, result) s) = stats s"
  using assms
  by (cases result) (simp_all add: optimizeImagesSettle_def Let_def split: option.split)

text \<open>
  C2. The claim: once everything has settled, the accumulator holds the sum of the
  per-file contributions. The code with one file of 80 bytes, optimized to 50: the
  final callback runs when \<^verbatim>\<open>ImageMin\<close> comes back, before the callback of
  \<^verbatim>\<open>stat\<close>, and adds counters that are still zero. After everything has settled the
  batch has counted one file of 80 bytes and the accumulator has none.
\<close>

theorem optimizeImages_file_not_counted:
  "pendingOps (optimizeImagesRun 1 5 ''public/images'' ''distrib/images''
                 [(0, Inr 50), (0, Inr 80)]
                 (optimizeImages 1 5 ''public/images/**/*.png'' [''a.png''] (initialWorld 0))) = [] \<and>
   promise (optimizeImagesRun 1 5 ''public/images'' ''distrib/images''
                 [(0, Inr 50), (0, Inr 80)]
                 (optimizeImages 1 5 ''public/images/**/*.png'' [''a.png''] (initialWorld 0)))
     = Resolved \<and>
   totalFilesCopied (optimizeImagesRun 1 5 ''public/images'' ''distrib/images''
                 [(0, Inr 50), (0, Inr 80)]
                 (optimizeImages 1 5 ''public/images/**/*.png'' [''a.png''] (initialWorld 0))) = 1 \<and>
   bytesConsidered (optimizeImagesRun 1 5 ''public/images'' ''distrib/images''
                 [(0, Inr 50), (0, Inr 80)]
                 (optimizeImages 1 5 ''public/images/**/*.png'' [''a.png''] (initialWorld 0))) = 80 \<and>
   stats (optimizeImagesRun 1 5 ''public/images'' ''distrib/images''
                 [(0, Inr 50), (0, Inr 80)]
                 (optimizeImages 1 5 ''public/images/**/*.png'' [''a.png''] (initialWorld 0)))
     = \<lparr> totalFiles = 0, totalBytesConsidered = 0, totalBytesCompressed = 0,
         startTime = 0, endTime = Some 5 \<rparr>"
  by (simp add: optimizeImagesRun_def optimizeImages_def eachLimit_def optimizeImagesSettle_def
        iterateeCallback_def finalCallback_def optimizeImagesItem_def optimizeImagesDone_def
        addToStats_def freshBatch_def initialWorld_def dropAt_def Let_def)


subsection \<open>A failing \<^verbatim>\<open>stat\<close>\<close>









subsection \<open>The runner's places\<close>

lemma replenish_running:
  assumes it: "\<And>x s. running (iteratee x s) = running s"
    and cb: "\<And>e s. running (callback e s) = running s"
  shows "running s \<le> limit \<Longrightarrow> running (replenish iteratee callback limit items s) \<le> limit"
proof (induction items arbitrary: s)
  case Nil
  then show ?case
    by (simp add: Let_def finalCallback_def cb)
next
  case (Cons elem rest)
  show ?case
  proof (cases "running s < limit \<and> \<not> stopped s")
    case True
    have "running (iteratee elem (s\<lparr>queue := rest, running := running s + 1\<rparr>)) \<le> limit"
      using True by (simp add: it)
    then show ?thesis
      using True Cons.IH by simp
  next
    case False
    then show ?thesis
      using Cons.prems by auto
  qed
qed

lemma iterateeCallback_running:
  assumes it: "\<And>x s. running (iteratee x s) = running s"
    and cb: "\<And>e s. running (callback e s) = running s"
  shows "running s \<le> limit \<Longrightarrow>
         running (iterateeCallback iteratee callback limit error s) \<le> limit"
proof -
  assume s: "running s \<le> limit"
  let ?s1 = "s\<lparr>running := running s - 1\<rparr>"
  have s1: "running ?s1 \<le> limit" using s by simp
  show ?thesis
  proof (cases error)
    case (Some e)
    then show ?thesis
      using s by (simp add: iterateeCallback_def Let_def finalCallback_def cb)
  next
    case None
    have a: "running (finalCallback callback None ?s1) \<le> limit"
      using s by (simp add: finalCallback_def cb)
    have b: "running (replenish iteratee callback limit (queue ?s1) ?s1) \<le> limit"
      using s1 by (rule replenish_running [OF it cb])
    have "iterateeCallback iteratee callback limit error s =
            (if stopped ?s1 \<and> running ?s1 = 0 then finalCallback callback None ?s1
             else replenish iteratee callback limit (queue ?s1) ?s1)"
      by (simp only: iterateeCallback_def Let_def None option.case)
    then show ?thesis
      using a b by (simp only: if_both [where P = "\<lambda>t. running t \<le> limit"])
  qed
qed

lemma optimizeImagesSettle_running:
  assumes "running s \<le> cpus"
  shows "running (optimizeImagesSettle cpus now src dst ev s) \<le> cpus"
proof (cases ev)
  case (Pair i result)
  let ?s1 = "s\<lparr>pendingOps := dropAt i (pendingOps s)\<rparr>"
  have k: "\<And>p. running (iterateeCallback optimizeImagesItem (optimizeImagesDone now) cpus None
                          (?s1\<lparr>pendingOps := p\<rparr>)) \<le> cpus"
    using assms by (intro iterateeCallback_running) (simp_all add: optimizeImagesItem_def)
  show ?thesis
    using assms k
    by (simp add: optimizeImagesSettle_def Pair Let_def
          split: option.split pending.split sum.split)
qed

text \<open>
  The runner's own count of places stays within the limit in the optimizing processor
  too; what exceeds it there is the number of files whose work is not finished.
\<close>

lemma optimizeImages_places_within_limit:
  "running (optimizeImagesRun cpus now src dst evs (optimizeImages cpus now globSpec files w))
     \<le> cpus"
proof -
  have step: "running s \<le> cpus \<Longrightarrow> running (optimizeImagesRun cpus now src dst evs s) \<le> cpus"
    for s
    unfolding optimizeImagesRun_def
    by (induction evs arbitrary: s) (simp_all add: optimizeImagesSettle_running)
  let ?s0 = "(say [S ''Starting image optimization for '', S globSpec] (freshBatch w))"
  have "running (?s0\<lparr>queue := files\<rparr>) \<le> cpus"
    by (simp add: freshBatch_def)
  then have "running (replenish optimizeImagesItem (optimizeImagesDone now) cpus files
                        (?s0\<lparr>queue := files\<rparr>)) \<le> cpus"
    by (intro replenish_running) (simp_all add: optimizeImagesItem_def)
  then have "running (optimizeImages cpus now globSpec files w) \<le> cpus"
    by (simp add: optimizeImages_def eachLimit_def freshBatch_def)
  then show ?thesis by (rule step)
qed

subsection \<open>Plain copy: a resolved batch has counted everything\<close>

lemma copyState_finalCallback_ok:
  assumes "copyState now st0 s" and "stopped s" and "running s = 0"
  shows "copyState now st0 (finalCallback (copyImagesDone now) None s)"
  using assms
  by (auto simp: copyState_def finalCallback_def copyImagesDone_def Let_def say_def logInfo_def
       )

lemma copyState_finalCallback_error:
  assumes "copyState now st0 s" and "promise s \<noteq> Resolved"
  shows "copyState now st0 (finalCallback (copyImagesDone now) (Some e) (s\<lparr>stopped := True\<rparr>))"
  using assms
  by (auto simp: copyState_def finalCallback_def copyImagesDone_def Let_def)

lemma copyState_replenish:
  assumes "copyState now st0 s" and "queue s = items"
  shows "copyState now st0 (replenish copyImagesItem (copyImagesDone now) limit items s)"
  using assms
proof (induction items arbitrary: s)
  case Nil
  show ?case
  proof (cases "running s < limit \<and> \<not> stopped s")
    case True
    let ?s1 = "s\<lparr>queue := [], stopped := True\<rparr>"
    have s1: "copyState now st0 ?s1"
      using Nil True by (auto simp: copyState_def)
    have "running ?s1 = 0 \<Longrightarrow> copyState now st0 (finalCallback (copyImagesDone now) None ?s1)"
      using s1 by (intro copyState_finalCallback_ok) simp_all
    then show ?thesis
      using True s1 by (simp add: Let_def)
  next
    case False
    have "s\<lparr>queue := []\<rparr> = s"
      using Nil.prems(2) by simp
    then show ?thesis
      using False Nil.prems(1) by auto
  qed
next
  case (Cons elem rest)
  show ?case
  proof (cases "running s < limit \<and> \<not> stopped s")
    case True
    let ?s1 = "copyImagesItem elem (s\<lparr>queue := rest, running := running s + 1\<rparr>)"
    have "copyState now st0 ?s1" and "queue ?s1 = rest"
      using Cons.prems True by (auto simp: copyState_def copyImagesItem_def)
    then have "copyState now st0 (replenish copyImagesItem (copyImagesDone now) limit rest ?s1)"
      by (rule Cons.IH)
    then show ?thesis
      using True by simp
  next
    case False
    have "s\<lparr>queue := elem # rest\<rparr> = s"
      using Cons.prems(2) by simp
    then show ?thesis
      using False Cons.prems(1) by auto
  qed
qed

lemma copyState_callback:
  assumes "copyState now st0 s" and "length (pendingOps s) < running s"
  shows "copyState now st0 (iterateeCallback copyImagesItem (copyImagesDone now) limit error s)"
proof -
  let ?s1 = "s\<lparr>running := running s - 1\<rparr>"
  have nr: "promise s \<noteq> Resolved"
    using assms by (auto simp: copyState_def)
  have s1: "copyState now st0 ?s1"
    using assms nr by (auto simp: copyState_def)
  show ?thesis
  proof (cases error)
    case (Some e)
    have "copyState now st0
                 (finalCallback (copyImagesDone now) (Some e) (?s1\<lparr>stopped := True\<rparr>))"
      using s1 nr by (intro copyState_finalCallback_error) simp_all
    then show ?thesis
      by (simp add: iterateeCallback_def Let_def Some)
  next
    case None
    have a: "stopped ?s1 \<and> running ?s1 = 0 \<Longrightarrow>
             copyState now st0 (finalCallback (copyImagesDone now) None ?s1)"
      using s1 by (intro copyState_finalCallback_ok) simp_all
    have b: "copyState now st0
               (replenish copyImagesItem (copyImagesDone now) limit (queue ?s1) ?s1)"
      using s1 by (intro copyState_replenish) simp_all
    have eq: "iterateeCallback copyImagesItem (copyImagesDone now) limit error s =
                (if stopped ?s1 \<and> running ?s1 = 0
                 then finalCallback (copyImagesDone now) None ?s1
                 else replenish copyImagesItem (copyImagesDone now) limit (queue ?s1) ?s1)"
      by (simp only: iterateeCallback_def Let_def None option.case)
    show ?thesis
    proof (cases "stopped ?s1 \<and> running ?s1 = 0")
      case True
      from a [OF True] show ?thesis
        unfolding eq using True by simp
    next
      case False
      from b show ?thesis
        unfolding eq using False by auto
    qed
  qed
qed

lemma copyState_settle:
  assumes "copyState now st0 s"
  shows "copyState now st0 (copyImagesSettle cpus now src dst copyFails ev s)"
proof (cases ev)
  case (Pair i result)
  show ?thesis
  proof (cases "crashed s = None \<and> i < length (pendingOps s)")
    case False
    then show ?thesis
      using assms by (auto simp: copyImagesSettle_def Pair split: option.splits)
  next
    case True
    let ?s1 = "s\<lparr>pendingOps := dropAt i (pendingOps s)\<rparr>"
    have nr: "promise s \<noteq> Resolved"
      using assms True by (auto simp: copyState_def)
    have len: "length (pendingOps ?s1) < running s"
      using assms True by (auto simp: copyState_def length_dropAt)
    have s1: "copyState now st0 ?s1"
      using assms nr len by (auto simp: copyState_def)
    have e: "\<And>m error. copyState now st0
               (iterateeCallback copyImagesItem (copyImagesDone now) cpus error (complain m ?s1))"
    proof -
      fix m error
      have "copyState now st0 (complain m ?s1)"
        using s1 by (simp add: copyState_def)
      then show "copyState now st0
               (iterateeCallback copyImagesItem (copyImagesDone now) cpus error (complain m ?s1))"
        using len by (intro copyState_callback) simp_all
    qed
    have k: "\<And>m n. copyState now st0
               (iterateeCallback copyImagesItem (copyImagesDone now) cpus None
                  (say m (?s1\<lparr>totalFilesCopied := totalFilesCopied ?s1 + 1,
                              bytesConsidered := bytesConsidered ?s1 + n,
                              totalBytesCopied := totalBytesCopied ?s1 + n\<rparr>)))"
    proof -
      fix m n
      have "copyState now st0
              (say m (?s1\<lparr>totalFilesCopied := totalFilesCopied ?s1 + 1,
                          bytesConsidered := bytesConsidered ?s1 + n,
                          totalBytesCopied := totalBytesCopied ?s1 + n\<rparr>))"
        using s1 nr by (simp add: copyState_def)
      then show "copyState now st0
               (iterateeCallback copyImagesItem (copyImagesDone now) cpus None
                  (say m (?s1\<lparr>totalFilesCopied := totalFilesCopied ?s1 + 1,
                              bytesConsidered := bytesConsidered ?s1 + n,
                              totalBytesCopied := totalBytesCopied ?s1 + n\<rparr>)))"
        using len by (intro copyState_callback) simp_all
    qed
    have c: "\<And>x. copyState now st0 (?s1\<lparr>crashed := x\<rparr>)"
      using s1 by (simp add: copyState_def)
    show ?thesis
      using assms e k c True
      by (simp add: copyImagesSettle_def Pair Let_def
            split: option.split pending.split sum.split)
  qed
qed

lemma copyState_start: "copyState now (stats w) (copyImages cpus now globSpec dst files w)"
proof (cases "cpus = 0")
  case True
  then show ?thesis
    by (simp add: copyImages_def eachLimit_def copyState_def freshBatch_def)
next
  case False
  let ?s0 = "(say [S ''Starting image copy with '', S globSpec, S '' to '', S dst]
               (freshBatch w))\<lparr>queue := files\<rparr>"
  have "copyState now (stats w) ?s0"
    by (simp add: copyState_def freshBatch_def)
  then have "copyState now (stats w)
               (replenish copyImagesItem (copyImagesDone now) cpus files ?s0)"
    by (intro copyState_replenish) simp_all
  then show ?thesis
    using False by (simp add: copyImages_def eachLimit_def)
qed

text \<open>
  When a plain-copy batch has resolved, no file is waiting or in flight, and the
  accumulator has received the batch's counters, which count every successful copy
  once (\<open>copy_success_counts_size_twice\<close>): here the callback is called inside the
  callback of \<^verbatim>\<open>stat\<close>.
\<close>

lemma copyImages_resolved_counts_everything:
  assumes "promise (copyImagesRun cpus now src dst copyFails evs
                      (copyImages cpus now globSpec dst files w)) = Resolved"
  shows "pendingOps (copyImagesRun cpus now src dst copyFails evs
                       (copyImages cpus now globSpec dst files w)) = [] \<and>
         queue (copyImagesRun cpus now src dst copyFails evs
                  (copyImages cpus now globSpec dst files w)) = [] \<and>
         stats (copyImagesRun cpus now src dst copyFails evs
                  (copyImages cpus now globSpec dst files w))
           = addToStats
               (totalFilesCopied (copyImagesRun cpus now src dst copyFails evs
                                    (copyImages cpus now globSpec dst files w)))
               (bytesConsidered (copyImagesRun cpus now src dst copyFails evs
                                   (copyImages cpus now globSpec dst files w)))
               (totalBytesCopied (copyImagesRun cpus now src dst copyFails evs
                                    (copyImages cpus now globSpec dst files w)))
               now (stats w)"
proof -
  have step: "copyState now st0 s \<Longrightarrow> copyState now st0 (copyImagesRun cpus now src dst copyFails evs s)"
    for s st0
    unfolding copyImagesRun_def
    by (induction evs arbitrary: s) (simp_all add: copyState_settle)
  have "copyState now (stats w)
          (copyImagesRun cpus now src dst copyFails evs (copyImages cpus now globSpec dst files w))"
    by (rule step [OF copyState_start])
  then show ?thesis
    using assms by (simp add: copyState_def)
qed


subsection \<open>Optimizing: the batch resolves with a \<^verbatim>\<open>stat\<close> outstanding\<close>

lemma optimize_callback_keeps_pending:
  assumes "x \<in> set (pendingOps s)"
  shows "x \<in> set (pendingOps (iterateeCallback optimizeImagesItem (optimizeImagesDone now)
                                  limit error s))"
  by (rule iterateeCallback_preserves [where P = "\<lambda>t. x \<in> set (pendingOps t)"])
     (simp_all add: optimizeImagesItem_def assms)

text \<open>
  An event that resolves the promise of the optimizing processor is an
  \<^verbatim>\<open>ImageMin\<close> coming back, and the \<^verbatim>\<open>stat\<close> it has just started is still
  outstanding: the file it belongs to has not been counted when the final callback
  adds the counters to the accumulator.
\<close>

lemma optimizeImages_resolves_with_stat_outstanding:
  assumes "promise s \<noteq> Resolved"
    and "promise (optimizeImagesSettle cpus now src dst ev s) = Resolved"
  shows "\<exists>f n. OptimizeStatPending f n
                  \<in> set (pendingOps (optimizeImagesSettle cpus now src dst ev s))"
proof (cases ev)
  case (Pair i result)
  show ?thesis
  proof (cases "crashed s = None \<and> i < length (pendingOps s)")
    case False
    then have "optimizeImagesSettle cpus now src dst ev s = s"
      by (auto simp: optimizeImagesSettle_def Pair split: option.splits)
    with assms show ?thesis by simp
  next
    case True
    let ?s1 = "s\<lparr>pendingOps := dropAt i (pendingOps s)\<rparr>"
    show ?thesis
    proof (cases "pendingOps s ! i")
      case (ImageMinPending f)
      show ?thesis
      proof (cases result)
        case (Inl e)
        then have "promise (optimizeImagesSettle cpus now src dst ev s) = promise s"
          using True by (simp add: optimizeImagesSettle_def Pair ImageMinPending Let_def)
        with assms show ?thesis by simp
      next
        case (Inr n)
        let ?s2 = "?s1\<lparr>pendingOps := pendingOps ?s1 @ [OptimizeStatPending f n]\<rparr>"
        have "OptimizeStatPending f n \<in> set (pendingOps ?s2)"
          by simp
        then have "OptimizeStatPending f n
                     \<in> set (pendingOps (iterateeCallback optimizeImagesItem
                                           (optimizeImagesDone now) cpus None ?s2))"
          by (rule optimize_callback_keeps_pending)
        moreover have "optimizeImagesSettle cpus now src dst ev s
                         = iterateeCallback optimizeImagesItem (optimizeImagesDone now) cpus None ?s2"
          using True by (simp add: optimizeImagesSettle_def Pair ImageMinPending Inr Let_def)
        ultimately show ?thesis by auto
      qed
    next
      case (OptimizeStatPending f n)
      then have "promise (optimizeImagesSettle cpus now src dst ev s) = promise s"
        using True
        by (cases result) (simp_all add: optimizeImagesSettle_def Pair Let_def)
      with assms show ?thesis by simp
    next
      case (CopyStatPending f)
      then have "optimizeImagesSettle cpus now src dst ev s = s"
        using True by (simp add: optimizeImagesSettle_def Pair Let_def)
      with assms show ?thesis by simp
    qed
  qed
qed


section \<open>Properties of the script processor\<close>

lemma say_jsrun [simp]:
  "disk (say m s) = disk s" "jsBytesConsidered (say m s) = jsBytesConsidered s"
  "jsBytesCopied (say m s) = jsBytesCopied s" "minifying (say m s) = minifying s"
  by (simp_all add: say_def logInfo_def)

lemma complain_jsrun [simp]:
  "disk (complain m s) = disk s" "jsBytesConsidered (complain m s) = jsBytesConsidered s"
  "jsBytesCopied (complain m s) = jsBytesCopied s" "minifying (complain m s) = minifying s"
  by (simp_all add: complain_def logError_def)

text \<open>
  A file that is ignored or can be read: \<^verbatim>\<open>prepareJSFile\<close> returns, with the entry
  made and the file counted when it is not ignored and not empty. It writes nothing.
\<close>

lemma prepareJSFile_readable:
  assumes "pathBasename f \<in> set (jsFilesToIgnore glob)
           \<or> pathJoin (jsSource v) f \<in> dom (contents (disk s))"
  shows "\<exists>s'. prepareJSFile glob v f code s
                 = Inr (entry glob (disk s) (jsSource v) f code, s') \<and>
              disk s' = disk s \<and> minifying s' = minifying s \<and>
              totalBytesCompressed (stats s') = totalBytesCompressed (stats s) \<and>
              totalFiles (stats s') = totalFiles (stats s)
                + (if counted glob (disk s) (jsSource v) f then 1 else 0)"
  using assms
  by (auto simp: prepareJSFile_def readFileSync_def entry_def counted_def Let_def
        split: option.splits)

lemma prepareJSFiles_readable:
  assumes "\<forall>f \<in> set fl. pathBasename f \<in> set (jsFilesToIgnore glob)
                          \<or> pathJoin (jsSource v) f \<in> dom (contents (disk s))"
  shows "\<exists>s'. prepareJSFiles glob v fl code s
                 = Inr (namedEntries glob (disk s) (jsSource v) code fl, s') \<and>
              disk s' = disk s \<and> minifying s' = minifying s \<and>
              totalBytesCompressed (stats s') = totalBytesCompressed (stats s) \<and>
              totalFiles (stats s') = totalFiles (stats s)
                + length (filter (counted glob (disk s) (jsSource v)) fl)"
  using assms
proof (induction fl arbitrary: code s)
  case Nil
  then show ?case by simp
next
  case (Cons f rest)
  from Cons.prems have
    "pathBasename f \<in> set (jsFilesToIgnore glob)
     \<or> pathJoin (jsSource v) f \<in> dom (contents (disk s))"
    by simp
  from prepareJSFile_readable [OF this, of code] obtain s1
    where one: "prepareJSFile glob v f code s = Inr (entry glob (disk s) (jsSource v) f code, s1)"
      and d1: "disk s1 = disk s" and m1: "minifying s1 = minifying s"
      and c1: "totalBytesCompressed (stats s1) = totalBytesCompressed (stats s)"
      and t1: "totalFiles (stats s1) = totalFiles (stats s)
                 + (if counted glob (disk s) (jsSource v) f then 1 else 0)"
    by blast
  have "\<forall>f \<in> set rest. pathBasename f \<in> set (jsFilesToIgnore glob)
                          \<or> pathJoin (jsSource v) f \<in> dom (contents (disk s1))"
    using Cons.prems by (simp add: d1)
  from Cons.IH [OF this, of "entry glob (disk s) (jsSource v) f code"] obtain s2
    where more: "prepareJSFiles glob v rest (entry glob (disk s) (jsSource v) f code) s1
                   = Inr (namedEntries glob (disk s1) (jsSource v)
                            (entry glob (disk s) (jsSource v) f code) rest, s2)"
      and d2: "disk s2 = disk s1" and m2: "minifying s2 = minifying s1"
      and c2: "totalBytesCompressed (stats s2) = totalBytesCompressed (stats s1)"
      and t2: "totalFiles (stats s2) = totalFiles (stats s1)
                 + length (filter (counted glob (disk s1) (jsSource v)) rest)"
    by blast
  show ?case
    by (rule exI [of _ s2]) (simp add: one more d1 d2 m1 m2 c1 c2 t1 t2)
qed

lemma completeJSCompression_effect:
  "disk (completeJSCompression glob v name code s) = disk s \<and>
   stats (completeJSCompression glob v name code s) = stats s \<and>
   minifying (completeJSCompression glob v name code s)
     = minifying s @ [\<lparr> packageName = name, terserCode = code, options = makeTerserOptions v \<rparr>]"
  by (simp add: completeJSCompression_def Let_def)

lemma bundles_readable:
  assumes "\<forall>grp \<in> set manifest.
             snd grp \<noteq> [] \<and>
             (\<forall>f \<in> set (snd grp). pathBasename f \<in> set (jsFilesToIgnore glob)
                                      \<or> pathJoin (jsSource v) f \<in> dom (contents (disk s)))"
  shows "\<exists>s'. bundles glob v manifest s = Inr s' \<and>
              disk s' = disk s \<and>
              totalBytesCompressed (stats s') = totalBytesCompressed (stats s) \<and>
              minifying s' = minifying s @ map (bundleJob glob v (disk s)) manifest \<and>
              totalFiles (stats s') = totalFiles (stats s)
                + sum_list (map (countedFiles glob v (disk s)) manifest)"
  using assms
proof (induction manifest arbitrary: s)
  case Nil
  then show ?case by simp
next
  case (Cons grp rest)
  obtain fileGroup fileList where b: "grp = (fileGroup, fileList)"
    by (cases grp)
  from Cons.prems b have ne: "fileList \<noteq> []"
    and rd: "\<forall>f \<in> set fileList. pathBasename f \<in> set (jsFilesToIgnore glob)
                                   \<or> pathJoin (jsSource v) f \<in> dom (contents (disk s))"
    by simp_all
  from prepareJSFiles_readable [OF rd, of "[]"] obtain s1
    where pr: "prepareJSFiles glob v fileList [] s
                 = Inr (namedEntries glob (disk s) (jsSource v) [] fileList, s1)"
      and d1: "disk s1 = disk s" and m1: "minifying s1 = minifying s"
      and c1: "totalBytesCompressed (stats s1) = totalBytesCompressed (stats s)"
      and t1: "totalFiles (stats s1) = totalFiles (stats s)
                 + length (filter (counted glob (disk s) (jsSource v)) fileList)"
    by blast
  let ?s2 = "completeJSCompression glob v (pathParseName (last fileList) @ ''.min.js'')
               (namedEntries glob (disk s) (jsSource v) [] fileList) s1"
  note e2 = completeJSCompression_effect [of glob v "pathParseName (last fileList) @ ''.min.js''"
               "namedEntries glob (disk s) (jsSource v) [] fileList" s1]
  have "\<forall>grp \<in> set rest.
          snd grp \<noteq> [] \<and>
          (\<forall>f \<in> set (snd grp). pathBasename f \<in> set (jsFilesToIgnore glob)
                                   \<or> pathJoin (jsSource v) f \<in> dom (contents (disk ?s2)))"
    using Cons.prems by (simp add: e2 d1)
  from Cons.IH [OF this] obtain s3
    where r3: "bundles glob v rest ?s2 = Inr s3" and d3: "disk s3 = disk ?s2"
      and c3: "totalBytesCompressed (stats s3) = totalBytesCompressed (stats ?s2)"
      and m3: "minifying s3 = minifying ?s2 @ map (bundleJob glob v (disk ?s2)) rest"
      and t3: "totalFiles (stats s3) = totalFiles (stats ?s2)
                 + sum_list (map (countedFiles glob v (disk ?s2)) rest)"
    by blast
  have j: "bundleJob glob v (disk s) grp
             = \<lparr> packageName = pathParseName (last fileList) @ ''.min.js'',
                 terserCode = namedEntries glob (disk s) (jsSource v) [] fileList,
                 options = makeTerserOptions v \<rparr>"
    and n: "countedFiles glob v (disk s) grp
             = length (filter (counted glob (disk s) (jsSource v)) fileList)"
    by (simp_all add: b bundleJob_def countedFiles_def)
  have "bundles glob v (grp # rest) s = Inr s3"
    by (simp add: b ne pr r3)
  then show ?case
    by (intro exI [of _ s3]) (simp add: j n d3 c3 m3 t3 e2 d1 m1 c1 t1)
qed

text \<open>
  The promise of \<^verbatim>\<open>optimizeJS\<close> settles before any minifier has come back: at that
  moment nothing has been written and no compressed bytes have been counted.
\<close>

lemma optimizeJS_resolves_before_writing:
  assumes "\<forall>grp \<in> set (pageManifest v).
             snd grp \<noteq> [] \<and>
             (\<forall>f \<in> set (snd grp). pathBasename f \<in> set (jsFilesToIgnore glob)
                                      \<or> pathJoin (jsSource v) f \<in> dom (contents (disk s)))"
  shows "fst (optimizeJS glob v s) = Resolved \<and>
         disk (snd (optimizeJS glob v s)) = disk s \<and>
         totalBytesCompressed (stats (snd (optimizeJS glob v s))) = totalBytesCompressed (stats s) \<and>
         minifying (snd (optimizeJS glob v s))
           = minifying s @ map (bundleJob glob v (disk s)) (pageManifest v)"
proof -
  let ?s0 = "say [S ''Starting JavaScript optimization for Varyn app files''] s"
  have "\<forall>grp \<in> set (pageManifest v).
          snd grp \<noteq> [] \<and>
          (\<forall>f \<in> set (snd grp). pathBasename f \<in> set (jsFilesToIgnore glob)
                                   \<or> pathJoin (jsSource v) f \<in> dom (contents (disk ?s0)))"
    using assms by simp
  from bundles_readable [OF this] obtain s'
    where "bundles glob v (pageManifest v) ?s0 = Inr s'" and "disk s' = disk ?s0"
      and "totalBytesCompressed (stats s') = totalBytesCompressed (stats ?s0)"
      and "minifying s' = minifying ?s0 @ map (bundleJob glob v (disk ?s0)) (pageManifest v)"
    by blast
  then show ?thesis
    by (simp add: optimizeJS_def)
qed




text \<open>A minifier that throws: the error is logged and nothing is written.\<close>

lemma minifySettle_threw:
  assumes "i < length (minifying t)"
  shows "minifySettle glob v (i, Threw e) t
           = complain [S ''completeJSCompression Compress error '', S e]
               (t\<lparr>minifying := dropAt i (minifying t)\<rparr>)"
  using assms by (simp add: minifySettle_def Let_def)




text \<open>
  In that scenario, once both minifiers have come back with code, both output files
  exist.
\<close>

lemma two_bundles_two_outputs:
  "contents (disk (minifySettle (siteSettings [(''home'', [''a.js'', ''home.js'']),
                                                (''about'', [''b.js'', ''about.js''])])
                                (siteSettings [(''home'', [''a.js'', ''home.js'']),
                                                (''about'', [''b.js'', ''about.js''])])
           (0, Code ''B'')
           (minifySettle (siteSettings [(''home'', [''a.js'', ''home.js'']),
                                         (''about'', [''b.js'', ''about.js''])])
                         (siteSettings [(''home'', [''a.js'', ''home.js'']),
                                         (''about'', [''b.js'', ''about.js''])])
              (0, Code ''A'')
              (snd (optimizeJS (siteSettings [(''home'', [''a.js'', ''home.js'']),
                                               (''about'', [''b.js'', ''about.js''])])
                               (siteSettings [(''home'', [''a.js'', ''home.js'']),
                                               (''about'', [''b.js'', ''about.js''])])
                               (freshJS siteFiles (initialWorld 0)))))))
     = (contents siteFiles)(''distrib/js/home.min.js'' \<mapsto> ''A'',
                            ''distrib/js/about.min.js'' \<mapsto> ''B'')"
  by (simp add: optimizeJS_def siteSettings_def siteFiles_def freshJS_def initialWorld_def
        prepareJSFile_def readFileSync_def completeJSCompression_def makeTerserOptions_def
        minifySettle_def existsSync_def writeFileSync_def dropAt_def
        pathJoin_def pathBasename_def pathParseName_def pathDirname_def Let_def
        say_def logInfo_def)


end
